theory Spec2Isabelle
  imports Main "HOL-Library.Sublist"
begin

section \<open>Python strings\<close>

text \<open>
  A Python \<open>str\<close> is modelled as a \<open>string\<close>: a list of characters whose code points
  lie below 256.  The character classes are the ones Python uses on that range:
  \<open>str.strip()\<close> and the regular expression class \<open>\s\<close> remove or match the code
  points 9-13, 28-31, 32, 133 and 160; \<open>\d\<close> matches the ten digits;
  \<open>str.lower()\<close> maps A-Z and the upper-case letters 192-222 (without 215) to the
  letter 32 code points above, written out as a table.
\<close>

definition is_space :: "char \<Rightarrow> bool" where
  "is_space c = (c \<in> set [CHR 0x09, CHR 0x0A, CHR 0x0B, CHR 0x0C, CHR 0x0D,
       CHR 0x1C, CHR 0x1D, CHR 0x1E, CHR 0x1F, CHR 0x20, CHR 0x85, CHR 0xA0])"

definition is_digit :: "char \<Rightarrow> bool" where
  "is_digit c = (c \<in> set ''0123456789'')"

definition upper_chars :: string where
  "upper_chars = ''ABCDEFGHIJKLMNOPQRSTUVWXYZ'' @
     [CHR 0xC0, CHR 0xC1, CHR 0xC2, CHR 0xC3, CHR 0xC4, CHR 0xC5, CHR 0xC6, CHR 0xC7,
      CHR 0xC8, CHR 0xC9, CHR 0xCA, CHR 0xCB, CHR 0xCC, CHR 0xCD, CHR 0xCE, CHR 0xCF,
      CHR 0xD0, CHR 0xD1, CHR 0xD2, CHR 0xD3, CHR 0xD4, CHR 0xD5, CHR 0xD6, CHR 0xD8,
      CHR 0xD9, CHR 0xDA, CHR 0xDB, CHR 0xDC, CHR 0xDD, CHR 0xDE]"

definition lower_chars :: string where
  "lower_chars = ''abcdefghijklmnopqrstuvwxyz'' @
     [CHR 0xE0, CHR 0xE1, CHR 0xE2, CHR 0xE3, CHR 0xE4, CHR 0xE5, CHR 0xE6, CHR 0xE7,
      CHR 0xE8, CHR 0xE9, CHR 0xEA, CHR 0xEB, CHR 0xEC, CHR 0xED, CHR 0xEE, CHR 0xEF,
      CHR 0xF0, CHR 0xF1, CHR 0xF2, CHR 0xF3, CHR 0xF4, CHR 0xF5, CHR 0xF6, CHR 0xF8,
      CHR 0xF9, CHR 0xFA, CHR 0xFB, CHR 0xFC, CHR 0xFD, CHR 0xFE]"

definition lower_char :: "char \<Rightarrow> char" where
  "lower_char c = (case map_of (zip upper_chars lower_chars) c of None \<Rightarrow> c | Some l \<Rightarrow> l)"

definition lower :: "string \<Rightarrow> string" where
  "lower s = map lower_char s"

definition strip :: "string \<Rightarrow> string" where
  "strip s = rev (dropWhile is_space (rev (dropWhile is_space s)))"

text \<open>\<open>s.split('\n')\<close>: the pieces between the newlines, at least one piece.\<close>

fun split_nl :: "string \<Rightarrow> string list" where
  "split_nl [] = [[]]"
| "split_nl (c # cs) =
     (if c = CHR ''\<newline>'' then [] # split_nl cs
      else (case split_nl cs of [] \<Rightarrow> [[c]] | l # ls \<Rightarrow> (c # l) # ls))"

text \<open>\<open>sep.join(xs)\<close>.\<close>

fun join :: "string \<Rightarrow> string list \<Rightarrow> string" where
  "join sep [] = []"
| "join sep [x] = x"
| "join sep (x # y # ys) = x @ sep @ join sep (y # ys)"

text \<open>\<open>str(n)\<close> for a Python integer: its decimal digits, with a minus sign below zero.\<close>

definition digit_char :: "nat \<Rightarrow> char" where
  "digit_char d = ''0123456789'' ! d"

function str_nat :: "nat \<Rightarrow> string" where
  "str_nat n = (if n < 10 then [digit_char n] else str_nat (n div 10) @ [digit_char (n mod 10)])"
  by pat_completeness auto
termination
  by (relation "measure id") auto

declare str_nat.simps [simp del]

definition str_int :: "int \<Rightarrow> string" where
  "str_int i = (if i < 0 then CHR ''-'' # str_nat (nat (- i)) else str_nat (nat i))"

section \<open>The data model (app/models)\<close>

datatype TestType = CAT1 | CAT2 | FAT

fun test_type_value :: "TestType \<Rightarrow> string" where
  "test_type_value CAT1 = ''CAT-1''"
| "test_type_value CAT2 = ''CAT-2''"
| "test_type_value FAT = ''FAT''"

record QuestionPart =
  label :: "string option"
  part_marks :: int
  part_text :: string
  module :: "string list"

record Question =
  q_no :: int
  marks :: int
  parts :: "QuestionPart list"
  instructions :: "string option"

record QuestionPaperMetadata =
  title :: string
  meta_test_type :: TestType
  meta_modules :: "string list"
  total_marks :: int
  meta_notes :: "string option"

record QuestionPaperValidation =
  total_marks_check :: int
  unique_questions :: bool

record GeneratedQuestionPaper =
  metadata :: QuestionPaperMetadata
  paper :: "Question list"
  validation :: QuestionPaperValidation

record QuestionGenerationRequest =
  syllabus_text :: string
  test_type :: TestType
  modules :: "string list"

text \<open>
  The exceptions the generator raises itself: \<open>ValueError(msg)\<close> and the plain
  \<open>Exception(msg)\<close>; \<open>str(e)\<close> is the message.
\<close>

datatype exn = ValueError string | Exception string

fun exn_str :: "exn \<Rightarrow> string" where
  "exn_str (ValueError m) = m"
| "exn_str (Exception m) = m"

section \<open>The test-type profiles and the paper validator\<close>

record profile =
  cfg_count :: int
  cfg_marks_each :: int
  cfg_total :: int

text \<open>\<open>self.question_limits\<close> of \<open>QuestionPaperGenerator.__init__\<close>.\<close>

fun question_limits :: "TestType \<Rightarrow> profile" where
  "question_limits CAT1 = \<lparr>cfg_count = 5, cfg_marks_each = 10, cfg_total = 50\<rparr>"
| "question_limits CAT2 = \<lparr>cfg_count = 5, cfg_marks_each = 10, cfg_total = 50\<rparr>"
| "question_limits FAT = \<lparr>cfg_count = 10, cfg_marks_each = 10, cfg_total = 100\<rparr>"

text \<open>What the validator writes to the log on the path that does not raise.\<close>

datatype log_event = LogWarning string | LogInfo string

text \<open>\<open>covered_modules\<close>: the union of the module tags of all parts of all questions.\<close>

definition covered_modules :: "Question list \<Rightarrow> string set" where
  "covered_modules qs = (\<Union>q \<in> set qs. \<Union>p \<in> set (parts q). set (module p))"

text \<open>
  \<open>_validate_question_paper\<close>, with the profile \<open>test_config\<close> as an argument.  The
  checks run in the order of the source: the question count, the total of the marks,
  then the marks of each question (the first question that deviates is reported).
  On the path that raises nothing the function returns the log lines it wrote.
\<close>

definition validate_with :: "profile \<Rightarrow> GeneratedQuestionPaper \<Rightarrow> string list \<Rightarrow> exn + log_event list" where
  "validate_with test_config question_paper requested =
     (let qs = paper question_paper; actual_total = sum_list (map marks qs)
      in if int (length qs) \<noteq> cfg_count test_config
         then Inl (ValueError (''Expected '' @ str_int (cfg_count test_config) @
                 '' questions, got '' @ str_int (int (length qs))))
         else if actual_total \<noteq> cfg_total test_config
         then Inl (ValueError (''Expected '' @ str_int (cfg_total test_config) @
                 '' total marks, got '' @ str_int actual_total))
         else (case find (\<lambda>q. marks q \<noteq> cfg_marks_each test_config) qs of
                 Some q \<Rightarrow> Inl (ValueError (''Question '' @ str_int (q_no q) @ '' has '' @
                            str_int (marks q) @ '' marks, expected '' @
                            str_int (cfg_marks_each test_config)))
               | None \<Rightarrow>
                   Inr ((if covered_modules qs \<inter> set requested = {}
                         then [LogWarning ''Generated questions don't cover any requested modules'']
                         else []) @
                        [LogInfo ''Question paper validation passed''])))"

definition validate_question_paper :: "GeneratedQuestionPaper \<Rightarrow> QuestionGenerationRequest \<Rightarrow> exn + log_event list" where
  "validate_question_paper question_paper request =
     validate_with (question_limits (test_type request)) question_paper (modules request)"

text \<open>
  The last three statements of \<open>_parse_and_validate_response\<close>, from the typed paper
  on: validate, then return the paper.  An exception of the validator is caught by the
  enclosing \<open>except Exception\<close> and raised again as a \<open>ValueError\<close>.
\<close>

definition validate_and_return :: "GeneratedQuestionPaper \<Rightarrow> QuestionGenerationRequest \<Rightarrow> exn + GeneratedQuestionPaper" where
  "validate_and_return question_paper request =
     (case validate_question_paper question_paper request of
        Inl e \<Rightarrow> Inl (ValueError (''Response validation failed: '' @ exn_str e))
      | Inr _ \<Rightarrow> Inr question_paper)"

section \<open>The module parser\<close>

text \<open>
  A Python \<open>dict\<close> with string keys is an association list in insertion order with no
  key twice.  \<open>d[k] = v\<close> replaces the value of a key that is present, in place, and
  appends a new key at the end.
\<close>

type_synonym 'v dict = "(string \<times> 'v) list"

fun dict_set :: "string \<Rightarrow> 'v \<Rightarrow> 'v dict \<Rightarrow> 'v dict" where
  "dict_set k v [] = [(k, v)]"
| "dict_set k v (p # ps) = (if fst p = k then (k, v) # ps else p # dict_set k v ps)"

definition dict_keys :: "'v dict \<Rightarrow> string list" where
  "dict_keys d = map fst d"

text \<open>
  The header patterns, each applied with \<open>re.match\<close> (at the start of the lowered
  line, with no condition on what follows the match).  The result is \<open>group(1)\<close>.

  \<open>lit\<close> consumes a literal prefix.  In every pattern the greedy reading is the only
  one: a run of \<open>\s\<close> is followed by a digit or a separator, and a run of \<open>\d\<close> by
  something that is not a digit, so backtracking finds no other match.
\<close>

definition lit :: "string \<Rightarrow> string \<Rightarrow> string option" where
  "lit p s = (if take (length p) s = p then Some (drop (length p) s) else None)"

definition sep_char :: "char \<Rightarrow> bool" where
  "sep_char c = (c \<in> set '':.-'')"

text \<open>\<open>kw\s*(\d+)\s*[:.\-]?\s*(.*)\<close> for the keyword \<open>kw\<close>.\<close>

definition pattern_keyword_num :: "string \<Rightarrow> string \<Rightarrow> string option" where
  "pattern_keyword_num kw s =
     (case lit kw s of
        None \<Rightarrow> None
      | Some r \<Rightarrow>
          (let d = takeWhile is_digit (dropWhile is_space r)
           in if d = [] then None else Some d))"

text \<open>\<open>module\s*[:.\-]?\s*(\d+)\s*(.*)\<close>.\<close>

definition pattern_module_sep :: "string \<Rightarrow> string option" where
  "pattern_module_sep s =
     (case lit ''module'' s of
        None \<Rightarrow> None
      | Some r \<Rightarrow>
          (let r1 = dropWhile is_space r;
               r2 = (case r1 of [] \<Rightarrow> r1 | c # cs \<Rightarrow> if sep_char c then cs else r1);
               d = takeWhile is_digit (dropWhile is_space r2)
           in if d = [] then None else Some d))"

text \<open>\<open>(\d+)\s*[:.\-]\s*(.*)\<close>: a number followed by a colon, a dot or a dash.\<close>

definition pattern_bare_num :: "string \<Rightarrow> string option" where
  "pattern_bare_num s =
     (let d = takeWhile is_digit s
      in if d = [] then None
         else (case dropWhile is_space (dropWhile is_digit s) of
                 [] \<Rightarrow> None
               | c # _ \<Rightarrow> if sep_char c then Some d else None))"

definition module_patterns :: "(string \<Rightarrow> string option) list" where
  "module_patterns =
     [pattern_keyword_num ''module'', pattern_module_sep, pattern_keyword_num ''chapter'',
      pattern_keyword_num ''unit'', pattern_bare_num]"

text \<open>The loop over the patterns: the first one that matches decides.\<close>

fun first_match :: "(string \<Rightarrow> string option) list \<Rightarrow> string \<Rightarrow> string option" where
  "first_match [] s = None"
| "first_match (p # ps) s = (case p s of Some g \<Rightarrow> Some g | None \<Rightarrow> first_match ps s)"

text \<open>The three local variables of \<open>_parse_all_modules_from_syllabus\<close>.\<close>

record parse_state =
  st_modules :: "string dict"
  current_module :: "string option"
  current_content :: "string list"

text \<open>
  \<open>if current_module and current_content: modules[current_module] = '\n'.join(...)\<close>.
  A Python string or list is true when it is not empty, \<open>None\<close> is false.
\<close>

definition flush :: "parse_state \<Rightarrow> string dict" where
  "flush st =
     (case current_module st of
        None \<Rightarrow> st_modules st
      | Some m \<Rightarrow>
          if m \<noteq> [] \<and> current_content st \<noteq> []
          then dict_set m (join ''\<newline>'' (current_content st)) (st_modules st)
          else st_modules st)"

text \<open>One turn of the loop over the lines.\<close>

definition parse_line :: "parse_state \<Rightarrow> string \<Rightarrow> parse_state" where
  "parse_line st line =
     (let line_stripped = strip line
      in if line_stripped = [] then st
         else (case first_match module_patterns (lower line_stripped) of
                 Some module_num \<Rightarrow>
                   \<lparr>st_modules = flush st,
                    current_module = Some (''Module '' @ module_num),
                    current_content = [line_stripped]\<rparr>
               | None \<Rightarrow>
                   (case current_module st of
                      None \<Rightarrow> st
                    | Some m \<Rightarrow>
                        if m \<noteq> [] then st\<lparr>current_content := current_content st @ [line_stripped]\<rparr>
                        else st)))"

definition parse_lines :: "string list \<Rightarrow> string dict" where
  "parse_lines lines =
     flush (foldl parse_line \<lparr>st_modules = [], current_module = None, current_content = []\<rparr> lines)"

definition parse_all_modules_from_syllabus :: "string \<Rightarrow> string dict" where
  "parse_all_modules_from_syllabus syllabus = parse_lines (split_nl syllabus)"

text \<open>\<open>_extract_module_number\<close>: \<open>re.search(r'(\d+)', name)\<close>, the first run of digits.\<close>

definition extract_module_number :: "string \<Rightarrow> string option" where
  "extract_module_number module_name =
     (let r = dropWhile (\<lambda>c. \<not> is_digit c) module_name
      in if r = [] then None else Some (takeWhile is_digit r))"

section \<open>The content selector\<close>

text \<open>\<open>_create_error_response\<close>.\<close>

definition create_error_response :: "string list \<Rightarrow> string list \<Rightarrow> string" where
  "create_error_response selected_modules available_modules =
     ''\<newline>ERROR: Cannot generate questions for the selected modules.\<newline>\<newline>SELECTED MODULES: ''
     @ join '', '' selected_modules
     @ ''\<newline>AVAILABLE MODULES IN SYLLABUS: ''
     @ join '', '' available_modules
     @ ''\<newline>\<newline>Please check that the module names are correct and exist in the uploaded syllabus.\<newline>Supported formats: \"Module 1\", \"Module 2\", etc.\<newline>''"

text \<open>
  One turn of the loop over \<open>selected_modules\<close>, on the pair of \<open>selected_content\<close>
  and \<open>found_modules\<close>.  A requested name that is a key of the map takes the content
  of that key.  Otherwise its number is compared with the number of every key, in the
  order of the map, and the first key that agrees gives the content (the source reads
  \<open>all_modules[key]\<close> for a key taken from \<open>all_modules.keys()\<close>; here the entry is
  found with its content).  \<open>if module_num\<close> is false for \<open>None\<close> and for the
  empty string.
\<close>

definition section_lines :: "string \<Rightarrow> string \<Rightarrow> string list" where
  "section_lines module_name content =
     [''\<newline>=== '' @ module_name @ '' CONTENT ONLY ==='', content, []]"

definition select_module :: "string dict \<Rightarrow> string list \<times> string list \<Rightarrow> string \<Rightarrow> string list \<times> string list" where
  "select_module all_modules acc module_name =
     (case acc of (selected_content, found_modules) \<Rightarrow>
        (case map_of all_modules module_name of
           Some content \<Rightarrow>
             (selected_content @ section_lines module_name content, found_modules @ [module_name])
         | None \<Rightarrow>
             (case extract_module_number module_name of
                None \<Rightarrow> acc
              | Some module_num \<Rightarrow>
                  if module_num = [] then acc
                  else (case find (\<lambda>entry. extract_module_number (fst entry) = Some module_num) all_modules of
                          None \<Rightarrow> acc
                        | Some entry \<Rightarrow>
                            (selected_content @ section_lines module_name (snd entry),
                             found_modules @ [module_name])))))"

text \<open>
  The body of \<open>_extract_module_content\<close> from the parsed map on.  Nothing in it
  raises, so the \<open>except\<close> branch of the source, which would return the error
  response with an empty list of available modules, is never taken.
\<close>

definition select_content :: "string dict \<Rightarrow> string list \<Rightarrow> string" where
  "select_content all_modules selected_modules =
     (case foldl (select_module all_modules) ([], []) selected_modules of
        (selected_content, found_modules) \<Rightarrow>
          if found_modules = []
          then create_error_response selected_modules (dict_keys all_modules)
          else
            ''\<newline>ULTRA STRICT INSTRUCTION: You MUST generate questions ONLY from the specific module content below.\<newline>\<newline>SELECTED MODULES: ''
            @ join '', '' selected_modules
            @ ''\<newline>AVAILABLE CONTENT: ''
            @ join '', '' found_modules
            @ ''\<newline>\<newline>=== MODULE-SPECIFIC CONTENT ===\<newline>''
            @ join ''\<newline>'' selected_content
            @ ''\<newline>\<newline>CRITICAL RULES:\<newline>1. Generate questions ONLY from the content above\<newline>2. DO NOT use any knowledge outside this content\<newline>3. Each question must relate to topics mentioned in the selected modules\<newline>4. Tag each question with the correct module name from: ''
            @ join '', '' selected_modules
            @ ''\<newline>5. IGNORE all other syllabus content not shown above\<newline>6. DO NOT mention any concepts, terms, or topics not explicitly listed in the content above\<newline>7. STICK STRICTLY to the topics shown: only use words and concepts that appear in the content above\<newline>\<newline>FORBIDDEN: Questions about topics not explicitly mentioned in the selected module content above.\<newline>ABSOLUTELY FORBIDDEN: Using your general knowledge about any subject beyond the provided content.'')"

definition extract_module_content :: "string \<Rightarrow> string list \<Rightarrow> string" where
  "extract_module_content syllabus selected_modules =
     select_content (parse_all_modules_from_syllabus syllabus) selected_modules"

section \<open>Request validation (QuestionGenerationRequest)\<close>

text \<open>
  \<open>re.sub(r'module\s+(\d+)', r'Module \1', module, flags=re.IGNORECASE)\<close>.
  \<open>match_module_num s\<close> is the match at the start of \<open>s\<close>, if there is one: the six
  letters in either case, white space (at least one), digits (at least one, as many
  as there are); it gives the digits and what follows the match.  The substitution
  scans from the left, rewrites each match and goes on behind it.
\<close>

definition match_module_num :: "string \<Rightarrow> (string \<times> string) option" where
  "match_module_num s =
     (if 6 \<le> length s \<and> lower (take 6 s) = ''module''
      then (let r = drop 6 s; r2 = dropWhile is_space r
            in if takeWhile is_space r \<noteq> [] \<and> takeWhile is_digit r2 \<noteq> []
               then Some (takeWhile is_digit r2, dropWhile is_digit r2) else None)
      else None)"

function re_sub_module :: "string \<Rightarrow> string" where
  "re_sub_module [] = []"
| "re_sub_module (c # cs) =
     (case match_module_num (c # cs) of
        Some (d, rest) \<Rightarrow> ''Module '' @ d @ re_sub_module rest
      | None \<Rightarrow> c # re_sub_module cs)"
  by pat_completeness auto
termination
proof (relation "measure length")
  fix c cs x d rest
  assume "match_module_num (c # cs) = Some x" and "(d, rest) = x"
  then have "rest = dropWhile is_digit (dropWhile is_space (drop 6 (c # cs)))"
    by (auto simp: match_module_num_def Let_def split: if_splits)
  moreover have "length (dropWhile is_digit (dropWhile is_space (drop 6 (c # cs)))) \<le> length cs"
    by (rule order_trans [OF length_dropWhile_le], rule order_trans [OF length_dropWhile_le]) simp
  ultimately show "(rest, c # cs) \<in> measure length" by simp
qed simp_all

text \<open>
  \<open>$\<close> matches at the end of the string and before a newline that ends it.
\<close>

definition at_end :: "string \<Rightarrow> bool" where
  "at_end s = (s = [] \<or> s = ''\<newline>'')"

text \<open>\<open>re.match(r'^\d+$', module)\<close>.\<close>

definition all_digits :: "string \<Rightarrow> bool" where
  "all_digits s = (takeWhile is_digit s \<noteq> [] \<and> at_end (dropWhile is_digit s))"

text \<open>\<open>re.match(r'^Module\s+([1-9]|10)$', module_normalized)\<close>.\<close>

definition label_match :: "string \<Rightarrow> bool" where
  "label_match s =
     (case lit ''Module'' s of
        None \<Rightarrow> False
      | Some r \<Rightarrow>
          takeWhile is_space r \<noteq> []
          \<and> (let r2 = dropWhile is_space r
             in (case r2 of [] \<Rightarrow> False | c # cs \<Rightarrow> c \<in> set ''123456789'' \<and> at_end cs)
                \<or> (case lit ''10'' r2 of None \<Rightarrow> False | Some t \<Rightarrow> at_end t)))"

text \<open>
  The loop of \<open>validate_modules\<close> over the list \<open>v\<close>.  The validator runs after the
  list of strings has been checked, so \<open>v\<close> is a list and the branch for a string is
  not taken.  The first label that does not pass raises.
\<close>

fun validate_each :: "string list \<Rightarrow> exn + string list" where
  "validate_each [] = Inr []"
| "validate_each (m # ms) =
     (let module_stripped = strip m
      in if module_stripped = [] then validate_each ms
         else (let module_normalized =
                     (if all_digits module_stripped then ''Module '' @ module_stripped
                      else re_sub_module module_stripped)
               in if \<not> label_match module_normalized
                  then Inl (ValueError (''Invalid module: '' @ module_stripped @
                              ''. Must be Module 1 through Module 10''))
                  else (case validate_each ms of
                          Inl e \<Rightarrow> Inl e
                        | Inr validated_modules \<Rightarrow> Inr (module_normalized # validated_modules))))"

definition validate_modules :: "string list \<Rightarrow> exn + string list" where
  "validate_modules v =
     (case validate_each v of
        Inl e \<Rightarrow> Inl e
      | Inr validated_modules \<Rightarrow>
          if validated_modules = [] then Inl (ValueError ''At least one module must be selected'')
          else Inr validated_modules)"

text \<open>
  The construction \<open>QuestionGenerationRequest(syllabus_text=..., test_type=..., modules=...)\<close>
  from a string, a test type and a list of strings.  The field constraints are those
  of the \<open>Field\<close> declarations: at least ten characters of syllabus, one to ten
  modules; the validator of \<open>modules\<close> runs when the list has passed.  The errors of all
  fields are collected, each with the name of its field.
\<close>

datatype field_error = StringTooShort | TooShort | TooLong | ValidatorError string

definition modules_field :: "string list \<Rightarrow> field_error + string list" where
  "modules_field v =
     (if length v < 1 then Inl TooShort
      else if 10 < length v then Inl TooLong
      else (case validate_modules v of
              Inl e \<Rightarrow> Inl (ValidatorError (exn_str e))
            | Inr ms \<Rightarrow> Inr ms))"

definition new_request :: "string \<Rightarrow> TestType \<Rightarrow> string list \<Rightarrow> (string \<times> field_error) list + QuestionGenerationRequest" where
  "new_request syllabus tt v =
     (let e1 = (if length syllabus < 10 then [(''syllabus_text'', StringTooShort)] else [])
      in case modules_field v of
           Inl e \<Rightarrow> Inl (e1 @ [(''modules'', e)])
         | Inr ms \<Rightarrow>
             if e1 = [] then Inr \<lparr>syllabus_text = syllabus, test_type = tt, modules = ms\<rparr>
             else Inl e1)"

section \<open>Parsed JSON and the defaulting of the response\<close>

text \<open>
  What \<open>json.loads\<close> returns: \<open>None\<close>, a \<open>bool\<close>, an \<open>int\<close>, a \<open>float\<close>, a
  \<open>str\<close>, a list or a dict with string keys.  A float is written with the integer
  it is equal to, if there is one, and with its \<open>repr\<close>: these are the two things
  the program reads of a float.
\<close>

datatype json =
    JNull
  | JBool bool
  | JInt int
  | JFloat "int option" string
  | JStr string
  | JArr "json list"
  | JObj "(string \<times> json) list"

text \<open>
  \<open>repr\<close> of a string: in single quotes, or in double quotes when it has a single
  quote and no double quote; the quote and the backslash are escaped, tab, newline and
  return are written \<open>\t\<close>, \<open>\n\<close>, \<open>\r\<close>, and the other characters that are not
  printable are written \<open>\xhh\<close>.
\<close>

definition hex2 :: "nat \<Rightarrow> string" where
  "hex2 n = [''0123456789abcdef'' ! (n div 16), ''0123456789abcdef'' ! (n mod 16)]"

definition repr_char :: "char \<Rightarrow> char \<Rightarrow> string" where
  "repr_char q c =
     (let n = (of_char c :: nat)
      in if c = q \<or> c = CHR 0x5C then [CHR 0x5C, c]
         else if c = CHR 0x09 then [CHR 0x5C, CHR ''t'']
         else if c = CHR 0x0A then [CHR 0x5C, CHR ''n'']
         else if c = CHR 0x0D then [CHR 0x5C, CHR ''r'']
         else if n < 32 \<or> n = 127 \<or> (128 \<le> n \<and> n \<le> 160) \<or> n = 173
         then [CHR 0x5C, CHR ''x''] @ hex2 n
         else [c])"

definition py_repr_str :: "string \<Rightarrow> string" where
  "py_repr_str s =
     (let q = (if CHR 0x27 \<in> set s \<and> CHR 0x22 \<notin> set s then CHR 0x22 else CHR 0x27)
      in [q] @ concat (map (repr_char q) s) @ [q])"

text \<open>\<open>repr(x)\<close> and \<open>str(x)\<close> of a parsed value; \<open>str\<close> of a string is the string.\<close>

fun py_repr :: "json \<Rightarrow> string" where
  "py_repr JNull = ''None''"
| "py_repr (JBool b) = (if b then ''True'' else ''False'')"
| "py_repr (JInt i) = str_int i"
| "py_repr (JFloat _ r) = r"
| "py_repr (JStr s) = py_repr_str s"
| "py_repr (JArr xs) = ''['' @ join '', '' (map py_repr xs) @ '']''"
| "py_repr (JObj kvs) =
     ''{'' @ join '', '' (map (\<lambda>(k, v). py_repr_str k @ '': '' @ py_repr v) kvs) @ ''}''"

definition py_str :: "json \<Rightarrow> string" where
  "py_str x = (case x of JStr s \<Rightarrow> s | _ \<Rightarrow> py_repr x)"

text \<open>\<open>d.setdefault(k, v)\<close> and \<open>d.get(k, v)\<close>.\<close>

definition setdefault :: "string \<Rightarrow> 'v \<Rightarrow> 'v dict \<Rightarrow> 'v dict" where
  "setdefault k v d = (case map_of d k of None \<Rightarrow> d @ [(k, v)] | Some _ \<Rightarrow> d)"

definition dict_get :: "'v dict \<Rightarrow> string \<Rightarrow> 'v \<Rightarrow> 'v" where
  "dict_get d k v = (case map_of d k of None \<Rightarrow> v | Some x \<Rightarrow> x)"

text \<open>
  The block of \<open>_parse_and_validate_response\<close> under the comment "Create fallback
  data if AI response is incomplete".  The source changes the parsed object in place;
  the parsed object is a tree, so each change is a change of the value at its place.

  The defaults of one part of question \<open>i\<close> (counted from 0); \<open>question\<close> is the
  question's dict after its own defaults.  A part that is no dict is left as it is.
\<close>

definition default_part :: "QuestionGenerationRequest \<Rightarrow> nat \<Rightarrow> json dict \<Rightarrow> json \<Rightarrow> json" where
  "default_part request i question part =
     (case part of
        JObj p \<Rightarrow>
          JObj (setdefault ''module'' (JArr (map JStr (take 1 (modules request))))
               (setdefault ''text''
                  (JStr (''Question '' @ py_str (dict_get question ''q_no'' (JInt (int i + 1)))
                         @ '' content''))
               (setdefault ''marks''
                  (dict_get question ''marks''
                     (JInt (cfg_marks_each (question_limits (test_type request)))))
               (setdefault ''label'' JNull p))))
      | _ \<Rightarrow> part)"

text \<open>The defaults of question \<open>i\<close>; a question that is no dict is skipped.\<close>

definition default_question :: "QuestionGenerationRequest \<Rightarrow> nat \<Rightarrow> json \<Rightarrow> json" where
  "default_question request i question =
     (case question of
        JObj q \<Rightarrow>
          (let q1 = setdefault ''q_no'' (JInt (int i + 1)) q;
               q2 = setdefault ''marks''
                      (JInt (cfg_marks_each (question_limits (test_type request)))) q1;
               q3 = setdefault ''instructions'' JNull q2;
               q4 = (case map_of q3 ''parts'' of
                       Some (JArr ps) \<Rightarrow> q3
                     | _ \<Rightarrow> dict_set ''parts'' (JArr []) q3)
           in (case map_of q4 ''parts'' of
                 Some (JArr ps) \<Rightarrow>
                   JObj (dict_set ''parts'' (JArr (map (default_part request i q4) ps)) q4)
               | _ \<Rightarrow> JObj q4))
      | _ \<Rightarrow> question)"

definition default_metadata :: "QuestionGenerationRequest \<Rightarrow> json dict \<Rightarrow> json dict" where
  "default_metadata request m =
     setdefault ''notes'' (JStr ''Generated based on provided syllabus'')
       (setdefault ''total_marks'' (JInt (cfg_total (question_limits (test_type request))))
       (setdefault ''modules'' (JArr (map JStr (modules request)))
       (setdefault ''test_type'' (JStr (test_type_value (test_type request)))
       (setdefault ''title'' (JStr (test_type_value (test_type request) @ '' Question Paper''))
          m))))"

definition default_validation :: "QuestionGenerationRequest \<Rightarrow> json dict \<Rightarrow> json dict" where
  "default_validation request v =
     setdefault ''unique_questions'' (JBool True)
       (setdefault ''total_marks_check'' (JInt (cfg_total (question_limits (test_type request))))
          v)"

text \<open>The dict under a key, with \<open>{}\<close> put there first when the value is no dict.\<close>

definition dict_at :: "json dict \<Rightarrow> string \<Rightarrow> json dict" where
  "dict_at d k = (case map_of d k of Some (JObj m) \<Rightarrow> m | _ \<Rightarrow> [])"

definition apply_defaults :: "QuestionGenerationRequest \<Rightarrow> json dict \<Rightarrow> json dict" where
  "apply_defaults request parsed_data =
     (case map_of parsed_data ''paper'' of
        Some (JArr qs) \<Rightarrow>
          (let d1 = dict_set ''metadata''
                      (JObj (default_metadata request (dict_at parsed_data ''metadata''))) parsed_data;
               d2 = dict_set ''validation''
                      (JObj (default_validation request (dict_at d1 ''validation''))) d1
           in dict_set ''paper''
                (JArr (map (\<lambda>(i, question). default_question request i question) (enumerate 0 qs)))
                d2)
      | _ \<Rightarrow> parsed_data)"

section \<open>The libraries the generator calls\<close>

text \<open>
  The generator calls code that is not part of the repository: the JSON parser, the
  validation of the pydantic models, the completion client, and it formats a prompt
  whose fixed prose has characters beyond code point 255.  What these do and the
  repository does not decide is an argument of the model:
  \<^item> \<open>json_loads\<close>: \<open>json.loads\<close> on a text that starts with an opening brace: the
    parsed object, or the exception raised with its message, a \<open>JSONDecodeError\<close> or
    another one (an integer literal beyond the digit limit of the interpreter raises a
    plain \<open>ValueError\<close>, too deep a nesting a \<open>RecursionError\<close>);
  \<^item> \<open>str_as_int\<close> and \<open>str_as_bool\<close>: which strings pydantic accepts for an
    \<open>int\<close> and for a \<open>bool\<close> field, and as what;
  \<^item> \<open>validation_error_str\<close>: \<open>str(e)\<close> of a pydantic \<open>ValidationError\<close>;
  \<^item> \<open>generate_completion\<close>: the call of the completion client with the prompt and
    the system message (the temperature 0.3 and the limit of 4000 tokens are fixed):
    the reply, or \<open>str(e)\<close> of the exception it raised;
  \<^item> \<open>prompt_text\<close>: the f-string of \<open>_create_generation_prompt\<close> as a function of
    the request and of the module content put into it.
\<close>

datatype loc_item = Field string | Index nat

datatype error_type =
    Missing | ModelType | ListType | IntType | IntParsing | IntParsingSize | IntFromFloat
  | FiniteNumber | StringType | BoolType | BoolParsing | EnumValue | TooShort
  | StringTooShort | GreaterThanEqual | LessThanEqual

datatype loads_exn = JSONDecodeError string | OtherException string

type_synonym pyd_error = "loc_item list \<times> error_type"

type_synonym 'a validated = "pyd_error list + 'a"

record lib =
  json_loads :: "string \<Rightarrow> loads_exn + json dict"
  str_as_int :: "string \<Rightarrow> int option"
  str_as_bool :: "string \<Rightarrow> bool option"
  validation_error_str :: "pyd_error list \<Rightarrow> string"
  generate_completion :: "string \<Rightarrow> string \<Rightarrow> string + string"
  prompt_text :: "QuestionGenerationRequest \<Rightarrow> string \<Rightarrow> string"

section \<open>Typed construction of the paper (the pydantic models)\<close>

text \<open>
  The validation of a parsed value against the declared type of a field, in
  pydantic's default mode: an error list (each error with the place it was found at),
  or the typed value.  A model collects the errors of all its fields, a list those of
  all its elements; a length bound of a list is checked when its elements have passed.

  A float is taken for an integer when it has no fractional part and lies strictly
  between \<open>-2^63\<close> and \<open>2^63\<close>; an \<open>int\<close> of any size is taken as it is.  For a
  \<open>bool\<close> field an \<open>int\<close> is read when it fits 64 bits, a float when it is taken
  for an integer; a number that is not read is an error of the type, one that is read
  and is neither 0 nor 1 an error of the value.
\<close>

definition fail :: "error_type \<Rightarrow> 'a validated" where
  "fail t = Inl [([], t)]"

definition at_loc :: "loc_item \<Rightarrow> 'a validated \<Rightarrow> 'a validated" where
  "at_loc l r = (case r of Inl es \<Rightarrow> Inl (map (\<lambda>(loc, t). (l # loc, t)) es) | Inr x \<Rightarrow> Inr x)"

definition errors_of :: "'a validated \<Rightarrow> pyd_error list" where
  "errors_of r = (case r of Inl es \<Rightarrow> es | Inr _ \<Rightarrow> [])"

definition required :: "json dict \<Rightarrow> string \<Rightarrow> (json \<Rightarrow> 'a validated) \<Rightarrow> 'a validated" where
  "required d k f =
     (case map_of d k of None \<Rightarrow> Inl [([Field k], Missing)] | Some v \<Rightarrow> at_loc (Field k) (f v))"

definition with_default :: "json dict \<Rightarrow> string \<Rightarrow> (json \<Rightarrow> 'a validated) \<Rightarrow> 'a \<Rightarrow> 'a validated" where
  "with_default d k f dflt =
     (case map_of d k of None \<Rightarrow> Inr dflt | Some v \<Rightarrow> at_loc (Field k) (f v))"

definition pyd_int :: "lib \<Rightarrow> json \<Rightarrow> int validated" where
  "pyd_int L v =
     (case v of
        JInt n \<Rightarrow> Inr n
      | JBool b \<Rightarrow> Inr (if b then 1 else 0)
      | JFloat (Some n) r \<Rightarrow>
          if - (2 ^ 63) < n \<and> n < 2 ^ 63 then Inr n else fail IntParsingSize
      | JFloat None r \<Rightarrow>
          fail (if r \<in> set [''inf'', ''-inf'', ''nan''] then FiniteNumber else IntFromFloat)
      | JStr s \<Rightarrow> (case str_as_int L s of Some n \<Rightarrow> Inr n | None \<Rightarrow> fail IntParsing)
      | _ \<Rightarrow> fail IntType)"

definition pyd_int_range :: "lib \<Rightarrow> int \<Rightarrow> int option \<Rightarrow> json \<Rightarrow> int validated" where
  "pyd_int_range L lo hi v =
     (case pyd_int L v of
        Inl es \<Rightarrow> Inl es
      | Inr n \<Rightarrow>
          if n < lo then fail GreaterThanEqual
          else (case hi of
                  None \<Rightarrow> Inr n
                | Some h \<Rightarrow> if h < n then fail LessThanEqual else Inr n))"

definition pyd_bool :: "lib \<Rightarrow> json \<Rightarrow> bool validated" where
  "pyd_bool L v =
     (case v of
        JBool b \<Rightarrow> Inr b
      | JInt n \<Rightarrow>
          if n = 0 then Inr False else if n = 1 then Inr True
          else if - (2 ^ 63) \<le> n \<and> n < 2 ^ 63 then fail BoolParsing else fail BoolType
      | JFloat (Some n) r \<Rightarrow>
          if - (2 ^ 63) < n \<and> n < 2 ^ 63
          then (if n = 0 then Inr False else if n = 1 then Inr True else fail BoolParsing)
          else fail BoolType
      | JFloat None r \<Rightarrow> fail BoolType
      | JStr s \<Rightarrow> (case str_as_bool L s of Some b \<Rightarrow> Inr b | None \<Rightarrow> fail BoolParsing)
      | _ \<Rightarrow> fail BoolType)"

definition pyd_str :: "nat \<Rightarrow> json \<Rightarrow> string validated" where
  "pyd_str min_length v =
     (case v of
        JStr s \<Rightarrow> if length s < min_length then fail StringTooShort else Inr s
      | _ \<Rightarrow> fail StringType)"

definition pyd_optional_str :: "json \<Rightarrow> string option validated" where
  "pyd_optional_str v =
     (case v of JNull \<Rightarrow> Inr None | JStr s \<Rightarrow> Inr (Some s) | _ \<Rightarrow> fail StringType)"

definition pyd_test_type :: "json \<Rightarrow> TestType validated" where
  "pyd_test_type v =
     (case v of
        JStr s \<Rightarrow>
          if s = ''CAT-1'' then Inr CAT1 else if s = ''CAT-2'' then Inr CAT2
          else if s = ''FAT'' then Inr FAT else fail EnumValue
      | _ \<Rightarrow> fail EnumValue)"

fun collect :: "'a validated list \<Rightarrow> 'a list validated" where
  "collect [] = Inr []"
| "collect (r # rs) =
     (case r of
        Inl es \<Rightarrow> Inl (es @ errors_of (collect rs))
      | Inr x \<Rightarrow> (case collect rs of Inl es \<Rightarrow> Inl es | Inr xs \<Rightarrow> Inr (x # xs)))"

definition pyd_list :: "(json \<Rightarrow> 'a validated) \<Rightarrow> nat \<Rightarrow> json \<Rightarrow> 'a list validated" where
  "pyd_list f min_items v =
     (case v of
        JArr xs \<Rightarrow>
          (case collect (map (\<lambda>(i, x). at_loc (Index i) (f x)) (enumerate 0 xs)) of
             Inl es \<Rightarrow> Inl es
           | Inr ys \<Rightarrow> if length ys < min_items then fail TooShort else Inr ys)
      | _ \<Rightarrow> fail ListType)"

text \<open>\<open>QuestionPart\<close>, \<open>Question\<close>, \<open>QuestionPaperMetadata\<close>, \<open>QuestionPaperValidation\<close>
  and \<open>GeneratedQuestionPaper\<close>, each from a dict; keys that are no fields are ignored.\<close>

definition construct_part :: "lib \<Rightarrow> json \<Rightarrow> QuestionPart validated" where
  "construct_part L v =
     (case v of
        JObj d \<Rightarrow>
          (let r1 = with_default d ''label'' pyd_optional_str None;
               r2 = required d ''marks'' (pyd_int_range L 1 (Some 10));
               r3 = required d ''text'' (pyd_str 10);
               r4 = required d ''module'' (pyd_list (pyd_str 0) 0)
           in case (r1, r2, r3, r4) of
                (Inr a, Inr b, Inr c, Inr e) \<Rightarrow>
                  Inr \<lparr>label = a, part_marks = b, part_text = c, module = e\<rparr>
              | _ \<Rightarrow> Inl (errors_of r1 @ errors_of r2 @ errors_of r3 @ errors_of r4))
      | _ \<Rightarrow> fail ModelType)"

definition construct_question :: "lib \<Rightarrow> json \<Rightarrow> Question validated" where
  "construct_question L v =
     (case v of
        JObj d \<Rightarrow>
          (let r1 = required d ''q_no'' (pyd_int_range L 1 None);
               r2 = required d ''marks'' (pyd_int_range L 1 (Some 10));
               r3 = required d ''parts'' (pyd_list (construct_part L) 1);
               r4 = with_default d ''instructions'' pyd_optional_str None
           in case (r1, r2, r3, r4) of
                (Inr a, Inr b, Inr c, Inr e) \<Rightarrow>
                  Inr \<lparr>q_no = a, marks = b, parts = c, instructions = e\<rparr>
              | _ \<Rightarrow> Inl (errors_of r1 @ errors_of r2 @ errors_of r3 @ errors_of r4))
      | _ \<Rightarrow> fail ModelType)"

definition construct_metadata :: "lib \<Rightarrow> json \<Rightarrow> QuestionPaperMetadata validated" where
  "construct_metadata L v =
     (case v of
        JObj d \<Rightarrow>
          (let r1 = required d ''title'' (pyd_str 1);
               r2 = required d ''test_type'' pyd_test_type;
               r3 = required d ''modules'' (pyd_list (pyd_str 0) 1);
               r4 = required d ''total_marks'' (pyd_int_range L 1 None);
               r5 = with_default d ''notes'' pyd_optional_str None
           in case (r1, r2, r3, r4, r5) of
                (Inr a, Inr b, Inr c, Inr e, Inr f) \<Rightarrow>
                  Inr \<lparr>title = a, meta_test_type = b, meta_modules = c, total_marks = e,
                       meta_notes = f\<rparr>
              | _ \<Rightarrow> Inl (errors_of r1 @ errors_of r2 @ errors_of r3 @ errors_of r4 @ errors_of r5))
      | _ \<Rightarrow> fail ModelType)"

definition construct_validation :: "lib \<Rightarrow> json \<Rightarrow> QuestionPaperValidation validated" where
  "construct_validation L v =
     (case v of
        JObj d \<Rightarrow>
          (let r1 = required d ''total_marks_check'' (pyd_int L);
               r2 = required d ''unique_questions'' (pyd_bool L)
           in case (r1, r2) of
                (Inr a, Inr b) \<Rightarrow> Inr \<lparr>total_marks_check = a, unique_questions = b\<rparr>
              | _ \<Rightarrow> Inl (errors_of r1 @ errors_of r2))
      | _ \<Rightarrow> fail ModelType)"

text \<open>\<open>GeneratedQuestionPaper(**parsed_data)\<close>.\<close>

definition construct_paper :: "lib \<Rightarrow> json dict \<Rightarrow> GeneratedQuestionPaper validated" where
  "construct_paper L d =
     (let r1 = required d ''metadata'' (construct_metadata L);
          r2 = required d ''paper'' (pyd_list (construct_question L) 0);
          r3 = required d ''validation'' (construct_validation L)
      in case (r1, r2, r3) of
           (Inr a, Inr b, Inr c) \<Rightarrow> Inr \<lparr>metadata = a, paper = b, validation = c\<rparr>
         | _ \<Rightarrow> Inl (errors_of r1 @ errors_of r2 @ errors_of r3))"

section \<open>Repair of the response and the orchestrator\<close>

text \<open>\<open>s.find(c)\<close> and \<open>s.rfind(c)\<close>, with \<open>None\<close> for the result -1.\<close>

fun find_char :: "char \<Rightarrow> string \<Rightarrow> nat option" where
  "find_char c [] = None"
| "find_char c (x # xs) = (if x = c then Some 0 else map_option Suc (find_char c xs))"

definition rfind_char :: "char \<Rightarrow> string \<Rightarrow> nat option" where
  "rfind_char c s = map_option (\<lambda>i. length s - 1 - i) (find_char c (rev s))"

text \<open>
  \<open>_parse_and_validate_response\<close> from the parsed object on: the three top-level keys
  are required, the defaults are applied, the typed paper is constructed and validated.
  Every exception is raised again as a \<open>ValueError\<close> whose message starts with
  "Response validation failed: ".
\<close>

definition repair_parsed :: "lib \<Rightarrow> json dict \<Rightarrow> QuestionGenerationRequest \<Rightarrow> exn + GeneratedQuestionPaper" where
  "repair_parsed L parsed_data request =
     (let missing_fields = filter (\<lambda>field. map_of parsed_data field = None)
                             [''metadata'', ''paper'', ''validation'']
      in if missing_fields \<noteq> []
         then Inl (ValueError (''Response validation failed: Missing required top-level fields: ''
                     @ py_repr (JArr (map JStr missing_fields))))
         else (case construct_paper L (apply_defaults request parsed_data) of
                 Inl errs \<Rightarrow>
                   Inl (ValueError (''Response validation failed: '' @ validation_error_str L errs))
               | Inr question_paper \<Rightarrow> validate_and_return question_paper request))"

text \<open>
  \<open>_parse_and_validate_response\<close>: the text from the first opening brace to the last
  closing brace is parsed (the slice is empty when the last closing brace stands before
  the first opening brace).  A \<open>JSONDecodeError\<close> of the parser is raised again with
  the message "Invalid JSON response: ", any other exception of the parser by the
  general handler, as the exceptions of the later steps are.
\<close>

definition parse_and_validate_response :: "lib \<Rightarrow> string \<Rightarrow> QuestionGenerationRequest \<Rightarrow> exn + GeneratedQuestionPaper" where
  "parse_and_validate_response L raw_response request =
     (case (find_char (CHR ''{'') raw_response, rfind_char (CHR ''}'') raw_response) of
        (Some json_start, Some last_brace) \<Rightarrow>
          (let clean_json = take (last_brace + 1 - json_start) (drop json_start raw_response)
           in case json_loads L clean_json of
                Inl (JSONDecodeError msg) \<Rightarrow>
                  Inl (ValueError (''Invalid JSON response: '' @ msg))
              | Inl (OtherException msg) \<Rightarrow>
                  Inl (ValueError (''Response validation failed: '' @ msg))
              | Inr parsed_data \<Rightarrow> repair_parsed L parsed_data request)
      | _ \<Rightarrow> Inl (ValueError ''Response validation failed: No valid JSON found in response''))"

definition system_message :: string where
  "system_message = ''You are an expert exam question generator. Respond ONLY with valid JSON format. No explanations, no additional text, just the JSON object as requested.''"

text \<open>\<open>_generate_with_ollama\<close>.\<close>

definition generate_with_ollama :: "lib \<Rightarrow> string \<Rightarrow> exn + string" where
  "generate_with_ollama L prompt =
     (case generate_completion L prompt system_message of
        Inl msg \<Rightarrow> Inl (Exception (''Question generation failed: '' @ msg))
      | Inr response \<Rightarrow> Inr (strip response))"

text \<open>\<open>_create_generation_prompt\<close>: the module content is selected and put into the prompt.\<close>

definition create_generation_prompt :: "lib \<Rightarrow> QuestionGenerationRequest \<Rightarrow> string" where
  "create_generation_prompt L request =
     prompt_text L request (extract_module_content (syllabus_text request) (modules request))"

text \<open>The body of the \<open>try\<close> of \<open>generate_question_paper\<close>, up to the typed paper.\<close>

definition generation_pipeline :: "lib \<Rightarrow> QuestionGenerationRequest \<Rightarrow> exn + GeneratedQuestionPaper" where
  "generation_pipeline L request =
     (case generate_with_ollama L (create_generation_prompt L request) of
        Inl e \<Rightarrow> Inl e
      | Inr raw_response \<Rightarrow> parse_and_validate_response L raw_response request)"

text \<open>
  \<open>generate_question_paper\<close>.  \<open>start_time\<close> is the reading of the clock on entry and
  \<open>end_time\<close> the reading taken when the result is built, on either path; the type of
  the readings and their difference are left open.  \<open>except Exception\<close> catches the
  exceptions of the stages, which are the values \<open>Inl e\<close> here.
\<close>

record 't QuestionGenerationResponse =
  success :: bool
  message :: string
  question_paper :: "GeneratedQuestionPaper option"
  processing_time :: 't
  agent_used :: string

definition generate_question_paper :: "lib \<Rightarrow> 't::minus \<Rightarrow> 't \<Rightarrow> QuestionGenerationRequest \<Rightarrow> 't QuestionGenerationResponse" where
  "generate_question_paper L start_time end_time request =
     (case generation_pipeline L request of
        Inr paper_built \<Rightarrow>
          \<lparr>success = True, message = ''Question paper generated successfully'',
           question_paper = Some paper_built, processing_time = end_time - start_time,
           agent_used = ''ollama_question_generator''\<rparr>
      | Inl e \<Rightarrow>
          \<lparr>success = False, message = ''Generation failed: '' @ exn_str e,
           question_paper = None, processing_time = end_time - start_time,
           agent_used = ''none''\<rparr>)"

section \<open>Notions used to state the properties\<close>

text \<open>
  What the loop finds on a line: blank lines are skipped before any pattern is tried;
  on the other lines the patterns are tried on the stripped, lowered line.  A line is a
  header when the result is \<open>Some n\<close>, with \<open>n\<close> the digits matched.  A block is a
  header line with the lines up to the next header; it is written as the triple of the
  header's digits, the header line and the lines that follow it.
\<close>

definition header_number :: "string \<Rightarrow> string option" where
  "header_number line =
     (if strip line = [] then None else first_match module_patterns (lower (strip line)))"

definition body_text :: "string list \<Rightarrow> string list" where
  "body_text body = filter (\<lambda>l. l \<noteq> []) (map strip body)"

type_synonym block = "string \<times> string \<times> string list"

definition block_lines :: "block \<Rightarrow> string list" where
  "block_lines b = (case b of (n, h, body) \<Rightarrow> h # body)"

definition block_key :: "block \<Rightarrow> string" where
  "block_key b = (case b of (n, h, body) \<Rightarrow> ''Module '' @ n)"

definition block_content :: "block \<Rightarrow> string" where
  "block_content b = (case b of (n, h, body) \<Rightarrow> join ''\<newline>'' (strip h # body_text body))"

definition block_ok :: "block \<Rightarrow> bool" where
  "block_ok b = (case b of (n, h, body) \<Rightarrow>
      header_number h = Some n \<and> (\<forall>l \<in> set body. header_number l = None))"

definition no_newline :: "string \<Rightarrow> bool" where
  "no_newline l = (CHR ''\<newline>'' \<notin> set l)"

text \<open>
  What the parser does with a whole block: it stores the block's content under the
  block's key.  \<open>numbered bodies\<close> pairs the blocks of lines with the decimal
  numbers 1, 2, ... of their headers.
\<close>

definition store_block :: "string dict \<Rightarrow> block \<Rightarrow> string dict" where
  "store_block d b = dict_set (block_key b) (block_content b) d"

definition numbered :: "string list list \<Rightarrow> (string \<times> string list) list" where
  "numbered bodies = map (\<lambda>(i, body). (str_nat (Suc i), body)) (enumerate 0 bodies)"

text \<open>
  A requested label resolves when it is a key of the map, or when its number is the
  number of some key.
\<close>

definition resolves :: "string dict \<Rightarrow> string \<Rightarrow> bool" where
  "resolves all_modules module_name =
     (map_of all_modules module_name \<noteq> None
      \<or> (\<exists>module_num. extract_module_number module_name = Some module_num \<and> module_num \<noteq> []
            \<and> (\<exists>key \<in> set (dict_keys all_modules). extract_module_number key = Some module_num)))"

text \<open>
  The labels \<open>Module 1\<close> to \<open>Module 10\<close>, and the numbers the last pattern of the
  validator admits.
\<close>

definition module_labels :: "string list" where
  "module_labels = map (\<lambda>n. ''Module '' @ str_nat n) [1..<11]"

definition label_numbers :: "string list" where
  "label_numbers = map (\<lambda>c. [c]) ''123456789'' @ [''10'']"


text \<open>
  An error list with no error of a missing field; a part and a question that have the
  keys their models require.
\<close>

definition no_missing :: "pyd_error list \<Rightarrow> bool" where
  "no_missing es = list_all (\<lambda>e. snd e \<noteq> Missing) es"



section \<open>Example inputs\<close>

text \<open>
  The inputs of the examples: a CAT-1 request for Module 1 and papers whose questions
  carry ten marks each in one part tagged with Module 1.
\<close>

definition example_request :: QuestionGenerationRequest where
  "example_request =
     \<lparr>syllabus_text = ''Module 1\<newline>Arrays and lists'', test_type = CAT1, modules = [''Module 1'']\<rparr>"

definition example_question :: "int \<Rightarrow> Question" where
  "example_question i =
     \<lparr>q_no = i, marks = 10,
      parts = [\<lparr>label = None, part_marks = 10, part_text = ''Explain arrays and lists.'',
                module = [''Module 1'']\<rparr>],
      instructions = None\<rparr>"

definition example_paper :: "int list \<Rightarrow> GeneratedQuestionPaper" where
  "example_paper numbers =
     \<lparr>metadata = \<lparr>title = ''CAT-1 Question Paper'', meta_test_type = CAT1,
                   meta_modules = [''Module 1''], total_marks = 50, meta_notes = None\<rparr>,
      paper = map example_question numbers,
      validation = \<lparr>total_marks_check = 50, unique_questions = True\<rparr>\<rparr>"




text \<open>
  The syllabus of \<open>tests/test_microcontroller_exact.py\<close>: the string literal
  \<open>microcontroller_syllabus\<close> of the test, line by line (it starts and it ends with a
  newline).  The test requests Module 2 and Module 5 of it and expects questions on
  the 8086 architecture for Module 2, the topic of the lines under that header.
\<close>

definition microcontroller_lines :: "string list" where
  "microcontroller_lines =
     [
      '''',
      ''Module 1: Introduction to Microprocessors'',
      ''Basic concepts of microprocessors, evolution from 4-bit to 64-bit processors, '',
      ''comparison between microprocessors and microcontrollers.'',
      '''',
      ''Module 2: Microprocessor Architecture and Interfacing: Intel x86'',
      ''16-bit Microprocessor: 8086 - Architecture and Addressing modes, Memory Segmentation,'',
      ''Instruction Set, Assembly Language Processing, Programming with DOS and BIOS function'',
      ''calls, minimum and maximum mode configuration, Programmable Peripheral Interface'',
      ''(8255), Programmable Timer Controller (8254), Memory Interface to 8086.'',
      '''',
      ''Module 3: Intel 8051 Microcontroller'',
      ''Architecture of 8051, Pin diagram, Memory organization, Addressing modes,'',
      ''Instruction set, Assembly language programming, Interrupts and interrupt handling.'',
      '''',
      ''Module 4: Advanced Features of 8051'',
      ''Timers and counters, Serial communication, Power control modes,'',
      ''Real-time clock implementation, Watchdog timer concepts.'',
      '''',
      ''Module 5: I/O Interfacing with Microcontroller 8051'',
      ''LCD, LED, Keypad, Analog-to-Digital Convertors, Digital-to-Analog Convertors, Sensor with'',
      ''Signal Conditioning Interface.'',
      '''',
      ''Module 6: ARM Architecture and Programming'',
      ''ARM processor architecture, instruction set, programming model, exception handling,'',
      ''ARM assembly language programming, thumb instruction set.'',
      '''',
      ''Module 7: Embedded System Design'',
      ''Embedded system components, design methodology, real-time operating systems,'',
      ''embedded software development, testing and debugging techniques.'',
      ''''
     ]"

definition microcontroller_syllabus :: string where
  "microcontroller_syllabus = join ''\<newline>'' microcontroller_lines"

section \<open>Theorems\<close>

subsection \<open>The paper validator\<close>

lemma find_None_all: "find P xs = None \<longleftrightarrow> (\<forall>x \<in> set xs. \<not> P x)"
  by (induction xs) auto

lemma validate_with_raises_iff:
  "isl (validate_with cfg p req) \<longleftrightarrow>
     int (length (paper p)) \<noteq> cfg_count cfg
     \<or> (\<exists>q \<in> set (paper p). marks q \<noteq> cfg_marks_each cfg)
     \<or> sum_list (map marks (paper p)) \<noteq> cfg_total cfg"
proof (cases "find (\<lambda>q. marks q \<noteq> cfg_marks_each cfg) (paper p)")
  case None
  then have "\<forall>q \<in> set (paper p). marks q = cfg_marks_each cfg"
    by (simp add: find_None_all)
  with None show ?thesis
    by (auto simp: validate_with_def Let_def)
next
  case (Some q)
  then have "\<exists>q \<in> set (paper p). marks q \<noteq> cfg_marks_each cfg"
    using find_None_all [of "\<lambda>q. marks q \<noteq> cfg_marks_each cfg" "paper p"] by auto
  with Some show ?thesis
    by (auto simp: validate_with_def Let_def)
qed

text \<open>
  C1.  For every typed question paper and every request, the validator raises if and
  only if the number of questions differs from the profile's count, or some question's
  marks differ from the profile's marks per question, or the sum of the marks differs
  from the profile's total.  When none of the three holds, the validator returns
  normally and the paper is returned to the caller; the coverage warning is written to
  the log exactly when no module tag of any part is among the requested modules, and
  it does not change the result.
\<close>

theorem validate_hard_iff_soft_warning:
  "(isl (validate_question_paper p req) \<longleftrightarrow>
      int (length (paper p)) \<noteq> cfg_count (question_limits (test_type req))
      \<or> (\<exists>q \<in> set (paper p). marks q \<noteq> cfg_marks_each (question_limits (test_type req)))
      \<or> sum_list (map marks (paper p)) \<noteq> cfg_total (question_limits (test_type req)))
   \<and> (\<not> isl (validate_question_paper p req) \<longrightarrow>
        validate_and_return p req = Inr p
        \<and> (\<exists>logs. validate_question_paper p req = Inr logs
             \<and> (LogWarning ''Generated questions don't cover any requested modules'' \<in> set logs
                  \<longleftrightarrow> covered_modules (paper p) \<inter> set (modules req) = {})))"
proof -
  let ?cfg = "question_limits (test_type req)"
  have iff: "isl (validate_question_paper p req) \<longleftrightarrow>
      int (length (paper p)) \<noteq> cfg_count ?cfg
      \<or> (\<exists>q \<in> set (paper p). marks q \<noteq> cfg_marks_each ?cfg)
      \<or> sum_list (map marks (paper p)) \<noteq> cfg_total ?cfg"
    unfolding validate_question_paper_def by (rule validate_with_raises_iff)
  have soft: "validate_and_return p req = Inr p
        \<and> (\<exists>logs. validate_question_paper p req = Inr logs
             \<and> (LogWarning ''Generated questions don't cover any requested modules'' \<in> set logs
                  \<longleftrightarrow> covered_modules (paper p) \<inter> set (modules req) = {}))"
    if ok: "\<not> isl (validate_question_paper p req)"
  proof -
    from ok iff have c: "int (length (paper p)) = cfg_count ?cfg"
      and t: "sum_list (map marks (paper p)) = cfg_total ?cfg"
      and m: "\<forall>q \<in> set (paper p). marks q = cfg_marks_each ?cfg"
      by auto
    from m have f: "find (\<lambda>q. marks q \<noteq> cfg_marks_each ?cfg) (paper p) = None"
      by (simp add: find_None_all)
    have v: "validate_question_paper p req =
        Inr ((if covered_modules (paper p) \<inter> set (modules req) = {}
              then [LogWarning ''Generated questions don't cover any requested modules'']
              else []) @ [LogInfo ''Question paper validation passed''])"
      using c t f by (simp add: validate_question_paper_def validate_with_def Let_def)
    then show ?thesis
      by (simp add: validate_and_return_def)
  qed
  from iff soft show ?thesis by blast
qed

text \<open>
  The example of the specification: under the CAT-1 profile a paper of four questions
  of ten marks raises, a paper of five questions of ten marks is returned.
\<close>

theorem validate_hard_iff_soft_warning_witness:
  "isl (validate_question_paper (example_paper [1, 2, 3, 4]) example_request)
   \<and> validate_and_return (example_paper [1, 2, 3, 4, 5]) example_request
       = Inr (example_paper [1, 2, 3, 4, 5])"
proof -
  have four: "isl (validate_question_paper (example_paper [1, 2, 3, 4]) example_request)"
    using validate_hard_iff_soft_warning [of "example_paper [1, 2, 3, 4]" example_request]
    by (simp add: example_paper_def example_request_def)
  have "\<not> isl (validate_question_paper (example_paper [1, 2, 3, 4, 5]) example_request)"
    using validate_hard_iff_soft_warning [of "example_paper [1, 2, 3, 4, 5]" example_request]
    by (simp add: example_paper_def example_request_def example_question_def)
  then have five: "validate_and_return (example_paper [1, 2, 3, 4, 5]) example_request
       = Inr (example_paper [1, 2, 3, 4, 5])"
    using validate_hard_iff_soft_warning [of "example_paper [1, 2, 3, 4, 5]" example_request]
    by blast
  from four five show ?thesis by simp
qed

subsection \<open>The module parser\<close>

lemma split_nl_nonempty: "split_nl s \<noteq> []"
  by (induction s) (auto split: list.splits)

lemma split_nl_no_newline: "no_newline l \<Longrightarrow> split_nl l = [l]"
  by (induction l) (auto simp: no_newline_def)

lemma split_nl_append:
  "no_newline l \<Longrightarrow> split_nl (l @ CHR ''\<newline>'' # s) = l # split_nl s"
  by (induction l) (auto simp: no_newline_def)

lemma split_nl_join:
  "ls \<noteq> [] \<Longrightarrow> \<forall>l \<in> set ls. no_newline l \<Longrightarrow> split_nl (join ''\<newline>'' ls) = ls"
proof (induction ls)
  case Nil
  then show ?case by simp
next
  case (Cons x xs)
  show ?case
  proof (cases xs)
    case Nil
    with Cons.prems show ?thesis by (simp add: split_nl_no_newline)
  next
    case (Cons y ys)
    with Cons.IH Cons.prems have "split_nl (join ''\<newline>'' xs) = xs" by simp
    with Cons Cons.prems show ?thesis
      using split_nl_append [of x "join ''\<newline>'' xs"] by simp
  qed
qed

lemma parse_line_blank: "strip l = [] \<Longrightarrow> parse_line st l = st"
  by (simp add: parse_line_def)

lemma parse_line_header:
  "header_number h = Some n \<Longrightarrow>
   parse_line st h = \<lparr>st_modules = flush st, current_module = Some (''Module '' @ n),
                       current_content = [strip h]\<rparr>"
  by (auto simp: parse_line_def header_number_def Let_def split: if_splits)

lemma parse_line_other_open:
  "header_number l = None \<Longrightarrow> current_module st = Some m \<Longrightarrow> m \<noteq> [] \<Longrightarrow>
   parse_line st l = st\<lparr>current_content := current_content st @ body_text [l]\<rparr>"
  by (auto simp: parse_line_def header_number_def body_text_def Let_def split: if_splits)

lemma parse_line_other_closed:
  "header_number l = None \<Longrightarrow> current_module st = None \<Longrightarrow> parse_line st l = st"
  by (auto simp: parse_line_def header_number_def Let_def split: if_splits)

lemma body_text_Cons: "body_text (l # ls) = body_text [l] @ body_text ls"
  by (simp add: body_text_def)

lemma parse_body:
  "\<forall>l \<in> set body. header_number l = None \<Longrightarrow> current_module st = Some m \<Longrightarrow> m \<noteq> [] \<Longrightarrow>
   foldl parse_line st body = st\<lparr>current_content := current_content st @ body_text body\<rparr>"
proof (induction body arbitrary: st)
  case Nil
  then show ?case by (simp add: body_text_def)
next
  case (Cons l ls)
  have step: "parse_line st l = st\<lparr>current_content := current_content st @ body_text [l]\<rparr>"
    using Cons.prems by (simp add: parse_line_other_open)
  have "foldl parse_line (parse_line st l) ls =
        (parse_line st l)\<lparr>current_content := current_content (parse_line st l) @ body_text ls\<rparr>"
    using Cons.prems by (intro Cons.IH) (simp_all add: step)
  then show ?case
    by (simp add: step body_text_Cons [of l ls])
qed

lemma parse_preamble:
  "\<forall>l \<in> set pre. header_number l = None \<Longrightarrow> current_module st = None \<Longrightarrow>
   foldl parse_line st pre = st"
  by (induction pre arbitrary: st) (simp_all add: parse_line_other_closed)

lemma parse_block:
  assumes "block_ok b"
  shows "flush (foldl parse_line st (block_lines b)) = store_block (flush st) b
     \<and> current_module (foldl parse_line st (block_lines b)) \<noteq> None"
proof -
  obtain n h body where b: "b = (n, h, body)" by (cases b) auto
  from assms b have hn: "header_number h = Some n"
    and bd: "\<forall>l \<in> set body. header_number l = None"
    by (auto simp: block_ok_def)
  let ?st1 = "\<lparr>st_modules = flush st, current_module = Some (''Module '' @ n),
                current_content = [strip h]\<rparr>"
  have "foldl parse_line st (block_lines b) = foldl parse_line ?st1 body"
    using hn by (simp add: b block_lines_def parse_line_header)
  also have "\<dots> = ?st1\<lparr>current_content := current_content ?st1 @ body_text body\<rparr>"
    using bd by (intro parse_body [where m = "''Module '' @ n"]) simp_all
  finally show ?thesis
    by (simp add: flush_def store_block_def b block_key_def block_content_def)
qed

lemma parse_blocks:
  "\<forall>b \<in> set bs. block_ok b \<Longrightarrow>
   flush (foldl parse_line st (concat (map block_lines bs))) = foldl store_block (flush st) bs"
proof (induction bs arbitrary: st)
  case Nil
  then show ?case by simp
next
  case (Cons b bs)
  then show ?case using parse_block [of b st] by simp
qed

lemma parse_lines_blocks:
  assumes "\<forall>l \<in> set pre. header_number l = None" and "\<forall>b \<in> set bs. block_ok b"
  shows "parse_lines (pre @ concat (map block_lines bs)) = foldl store_block [] bs"
proof -
  let ?init = "\<lparr>st_modules = [], current_module = None, current_content = []\<rparr>"
  have "foldl parse_line ?init pre = ?init"
    using assms(1) by (intro parse_preamble) simp_all
  then show ?thesis
    using parse_blocks [OF assms(2), of ?init] by (simp add: parse_lines_def flush_def)
qed

lemma parse_lines_single_blank: "parse_lines [[]] = parse_lines []"
  by (simp add: parse_lines_def parse_line_def strip_def)

lemma parse_text_lines:
  assumes "\<forall>l \<in> set ls. no_newline l"
  shows "parse_all_modules_from_syllabus (join ''\<newline>'' ls) = parse_lines ls"
proof (cases "ls = []")
  case True
  then show ?thesis
    by (simp add: parse_all_modules_from_syllabus_def parse_lines_single_blank)
next
  case False
  then show ?thesis using assms
    by (simp add: parse_all_modules_from_syllabus_def split_nl_join)
qed

lemma dict_set_fresh: "k \<notin> fst ` set d \<Longrightarrow> dict_set k v d = d @ [(k, v)]"
  by (induction d) auto

lemma map_of_dict_set: "map_of (dict_set k v d) = (map_of d)(k \<mapsto> v)"
  by (induction d) (auto simp: fun_eq_iff)

lemma keys_dict_set: "fst ` set (dict_set k v d) = insert k (fst ` set d)"
  by (induction d) auto

lemma distinct_dict_set: "distinct (map fst d) \<Longrightarrow> distinct (map fst (dict_set k v d))"
proof (induction d)
  case Nil
  then show ?case by simp
next
  case (Cons p ps)
  then show ?case using keys_dict_set [of k v ps] by (auto simp: image_iff)
qed

lemma store_blocks_distinct_keys:
  "distinct (map block_key bs) \<Longrightarrow>
   foldl store_block [] bs = map (\<lambda>b. (block_key b, block_content b)) bs"
proof (induction bs rule: rev_induct)
  case Nil
  then show ?case by simp
next
  case (snoc b bs)
  then have "block_key b \<notin> fst ` set (map (\<lambda>b. (block_key b, block_content b)) bs)"
    by (auto simp: image_iff)
  with snoc show ?case
    by (simp add: store_block_def dict_set_fresh)
qed

lemma map_of_store_blocks_other:
  "k \<notin> block_key ` set bs \<Longrightarrow> map_of (foldl store_block d bs) k = map_of d k"
  by (induction bs arbitrary: d) (simp_all add: store_block_def map_of_dict_set)

lemma map_of_store_blocks_last:
  "block_key b \<notin> block_key ` set bs2 \<Longrightarrow>
   map_of (foldl store_block d (bs1 @ b # bs2)) (block_key b) = Some (block_content b)"
  by (simp add: map_of_store_blocks_other) (simp add: store_block_def map_of_dict_set)

lemma distinct_store_blocks:
  "distinct (map fst d) \<Longrightarrow> distinct (map fst (foldl store_block d bs))"
  by (induction bs arbitrary: d) (simp_all add: store_block_def distinct_dict_set)

lemma keys_store_blocks:
  "fst ` set (foldl store_block d bs) = fst ` set d \<union> block_key ` set bs"
  by (induction bs arbitrary: d) (auto simp: store_block_def keys_dict_set)

lemma store_blocks_entry:
  assumes "(k, v) \<in> set (foldl store_block [] bs)"
  shows "\<exists>bs1 b bs2. bs = bs1 @ b # bs2 \<and> block_key b \<notin> block_key ` set bs2
           \<and> k = block_key b \<and> v = block_content b"
proof -
  from assms have "k \<in> fst ` set (foldl store_block [] bs)" by force
  then have "k \<in> set (map block_key bs)" by (simp add: keys_store_blocks)
  then obtain ks1 ks2 where ks: "map block_key bs = ks1 @ k # ks2" "k \<notin> set ks2"
    by (meson split_list_last)
  then obtain bs1 b bs2 where bs: "bs = bs1 @ b # bs2" "block_key b = k" "map block_key bs2 = ks2"
    by (auto simp: map_eq_append_conv map_eq_Cons_conv)
  with ks have last: "block_key b \<notin> block_key ` set bs2" by auto
  have "map_of (foldl store_block [] bs) k = Some (block_content b)"
    using map_of_store_blocks_last [OF last, of "[]" bs1] bs by simp
  moreover have "map_of (foldl store_block [] bs) k = Some v"
    using assms distinct_store_blocks [of "[]" bs] by simp
  ultimately have "v = block_content b" by simp
  with bs last show ?thesis by blast
qed

lemma digit_not_space: "is_digit c \<Longrightarrow> \<not> is_space c"
  by (auto simp: is_digit_def is_space_def)

lemma digit_not_upper: "is_digit c \<Longrightarrow> c \<notin> set upper_chars"
  unfolding is_digit_def upper_chars_def by (elim rev_mp) simp

lemma lower_char_other: "c \<notin> set upper_chars \<Longrightarrow> lower_char c = c"
proof -
  assume "c \<notin> set upper_chars"
  then have "c \<notin> fst ` set (zip upper_chars lower_chars)"
    by (auto dest: set_zip_leftD)
  then have "map_of (zip upper_chars lower_chars) c = None"
    by (simp add: map_of_eq_None_iff)
  then show ?thesis by (simp add: lower_char_def)
qed

lemma lower_digit: "is_digit c \<Longrightarrow> lower_char c = c"
  by (simp add: digit_not_upper lower_char_other)

lemma lower_digits: "\<forall>c \<in> set ds. is_digit c \<Longrightarrow> lower ds = ds"
  by (simp add: lower_def map_idI lower_digit)

lemma strip_keep:
  assumes "s \<noteq> []" "\<not> is_space (hd s)" "\<not> is_space (last s)"
  shows "strip s = s"
proof -
  from assms have a: "dropWhile is_space s = s" by (cases s) auto
  from assms have "rev s \<noteq> []" "\<not> is_space (hd (rev s))" by (simp_all add: hd_rev)
  then have "dropWhile is_space (rev s) = rev s" by (cases "rev s") auto
  with a show ?thesis by (simp add: strip_def)
qed

lemma literal_header:
  assumes "ds \<noteq> []" "\<forall>c \<in> set ds. is_digit c"
  shows "strip (''Module '' @ ds) = ''Module '' @ ds"
    and "header_number (''Module '' @ ds) = Some ds"
proof -
  from assms have l: "\<not> is_space (last ds)" by (simp add: digit_not_space)
  have "\<not> is_space (CHR ''M'')" by (simp add: is_space_def)
  with l assms(1) show s: "strip (''Module '' @ ds) = ''Module '' @ ds"
    by (intro strip_keep) simp_all
  have low: "lower (''Module '' @ ds) = ''module '' @ ds"
    using lower_digits [OF assms(2)] by (simp add: lower_def lower_char_def upper_chars_def lower_chars_def)
  from assms obtain d ds' where ds: "ds = d # ds'" "is_digit d" by (cases ds) auto
  have sp: "is_space (CHR '' '')" by (simp add: is_space_def)
  from ds have dw: "dropWhile is_space ds = ds"
    by (simp add: digit_not_space)
  have tw: "takeWhile is_digit ds = ds" using assms(2) by simp
  have "pattern_keyword_num ''module'' (''module '' @ ds) = Some ds"
    using assms(1) by (simp add: pattern_keyword_num_def lit_def sp dw tw Let_def del: takeWhile_eq_all_conv)
  then show "header_number (''Module '' @ ds) = Some ds"
    using s low by (simp add: header_number_def module_patterns_def)
qed

lemma digit_char_digit: "d < 10 \<Longrightarrow> is_digit (digit_char d)"
proof -
  assume "d < 10"
  then have "d = 0 \<or> d = 1 \<or> d = 2 \<or> d = 3 \<or> d = 4 \<or> d = 5 \<or> d = 6 \<or> d = 7 \<or> d = 8 \<or> d = 9"
    by arith
  then show ?thesis
    by (elim disjE) (simp_all add: digit_char_def is_digit_def)
qed

lemma digit_char_inj: "a < 10 \<Longrightarrow> b < 10 \<Longrightarrow> digit_char a = digit_char b \<Longrightarrow> a = b"
proof -
  assume a: "a < 10" and b: "b < 10" and e: "digit_char a = digit_char b"
  have d: "distinct ''0123456789''" by simp
  from a b e show ?thesis
    unfolding digit_char_def using nth_eq_iff_index_eq [OF d, of a b] by simp
qed

lemma str_nat_nonempty: "str_nat n \<noteq> []"
  by (subst str_nat.simps) simp

lemma str_nat_digits: "c \<in> set (str_nat n) \<Longrightarrow> is_digit c"
proof (induction n arbitrary: c rule: str_nat.induct)
  case (1 n)
  show ?case
  proof (cases "n < 10")
    case True
    with "1.prems" show ?thesis
      by (subst (asm) str_nat.simps) (simp add: digit_char_digit)
  next
    case False
    with "1.prems" have "c \<in> set (str_nat (n div 10)) \<or> c = digit_char (n mod 10)"
      by (subst (asm) str_nat.simps) auto
    with False "1.IH" show ?thesis
      by (auto simp: digit_char_digit)
  qed
qed

lemma str_nat_inj: "str_nat m = str_nat n \<Longrightarrow> m = n"
proof (induction m arbitrary: n rule: str_nat.induct)
  case (1 m)
  have long: "length (str_nat k) \<ge> 2" if "\<not> k < 10" for k
  proof -
    have "str_nat (k div 10) \<noteq> []" by (rule str_nat_nonempty)
    then have "length (str_nat (k div 10)) \<ge> 1" by (cases "str_nat (k div 10)") auto
    with that show ?thesis by (subst str_nat.simps) simp
  qed
  have short: "str_nat k = [digit_char k]" if "k < 10" for k
    using that by (subst str_nat.simps) simp
  show ?case
  proof (cases "m < 10")
    case True
    show ?thesis
    proof (cases "n < 10")
      case n: True
      with True "1.prems" show ?thesis by (simp add: short digit_char_inj)
    next
      case False
      from True "1.prems" have "length (str_nat n) = 1" by (simp add: short flip: "1.prems")
      with long [OF False] show ?thesis by simp
    qed
  next
    case False
    show ?thesis
    proof (cases "n < 10")
      case True
      with "1.prems" have "length (str_nat m) = 1" by (simp add: short)
      with long [OF False] show ?thesis by simp
    next
      case n: False
      from False have em: "str_nat m = str_nat (m div 10) @ [digit_char (m mod 10)]"
        by (subst str_nat.simps) simp
      from n have en: "str_nat n = str_nat (n div 10) @ [digit_char (n mod 10)]"
        by (subst str_nat.simps) simp
      from em en "1.prems" have a: "str_nat (m div 10) = str_nat (n div 10)"
        and b: "digit_char (m mod 10) = digit_char (n mod 10)" by simp_all
      from a False "1.IH" have "m div 10 = n div 10" by simp
      moreover from b have "m mod 10 = n mod 10" by (intro digit_char_inj) simp_all
      ultimately show ?thesis by (metis div_mult_mod_eq)
    qed
  qed
qed

lemma module_line_no_newline:
  "\<forall>c \<in> set ds. is_digit c \<Longrightarrow> no_newline (''Module '' @ ds)"
proof -
  assume d: "\<forall>c \<in> set ds. is_digit c"
  have "\<not> is_digit (CHR ''\<newline>'')" by (simp add: is_digit_def)
  with d have "CHR ''\<newline>'' \<notin> set ds" by blast
  then show ?thesis by (simp add: no_newline_def)
qed

lemma parse_digit_headers:
  assumes pre: "\<forall>l \<in> set pre. header_number l = None \<and> no_newline l"
    and blocks: "\<forall>b \<in> set blocks. fst b \<noteq> [] \<and> (\<forall>c \<in> set (fst b). is_digit c)
                   \<and> (\<forall>l \<in> set (snd b). header_number l = None \<and> no_newline l)"
    and dist: "distinct (map fst blocks)"
  shows "parse_all_modules_from_syllabus
           (join ''\<newline>'' (pre @ concat (map (\<lambda>b. (''Module '' @ fst b) # snd b) blocks)))
         = map (\<lambda>b. (''Module '' @ fst b, join ''\<newline>'' ((''Module '' @ fst b) # body_text (snd b)))) blocks"
proof -
  define mk :: "string \<times> string list \<Rightarrow> block" where "mk = (\<lambda>b. (fst b, ''Module '' @ fst b, snd b))"
  define bs where "bs = map mk blocks"
  have lines: "map (\<lambda>b. (''Module '' @ fst b) # snd b) blocks = map block_lines bs"
    by (simp add: bs_def mk_def block_lines_def)
  have hdr: "strip (''Module '' @ fst b) = ''Module '' @ fst b"
      "header_number (''Module '' @ fst b) = Some (fst b)"
      "no_newline (''Module '' @ fst b)" if "b \<in> set blocks" for b
    using that blocks literal_header [of "fst b"] module_line_no_newline [of "fst b"] by blast+
  have ok: "\<forall>b \<in> set bs. block_ok b"
  proof
    fix b assume "b \<in> set bs"
    then obtain b0 where b: "b = mk b0" "b0 \<in> set blocks"
      by (auto simp: bs_def)
    with blocks have "\<forall>l \<in> set (snd b0). header_number l = None" by blast
    with b hdr(2) [of b0] show "block_ok b"
      by (simp add: block_ok_def mk_def)
  qed
  have nl: "\<forall>l \<in> set (pre @ concat (map block_lines bs)). no_newline l"
  proof
    fix l assume "l \<in> set (pre @ concat (map block_lines bs))"
    then consider "l \<in> set pre"
      | b where "b \<in> set blocks" "l = ''Module '' @ fst b \<or> l \<in> set (snd b)"
      by (auto simp: bs_def mk_def block_lines_def)
    then show "no_newline l"
    proof cases
      case 1
      with pre show ?thesis by simp
    next
      case 2
      with blocks have "\<forall>l \<in> set (snd b). no_newline l" by blast
      with 2 hdr(3) [of b] show ?thesis by blast
    qed
  qed
  have "distinct (map (\<lambda>ds. ''Module '' @ ds) (map fst blocks))"
    by (rule iffD2 [OF distinct_map]) (simp add: dist inj_on_def)
  moreover have "map block_key bs = map (\<lambda>ds. ''Module '' @ ds) (map fst blocks)"
    by (simp add: bs_def mk_def block_key_def)
  ultimately have dk: "distinct (map block_key bs)" by simp
  have "parse_all_modules_from_syllabus (join ''\<newline>'' (pre @ concat (map block_lines bs)))
        = parse_lines (pre @ concat (map block_lines bs))"
    using nl by (rule parse_text_lines)
  also have "\<dots> = foldl store_block [] bs"
    using pre ok by (intro parse_lines_blocks) simp_all
  also have "\<dots> = map (\<lambda>b. (block_key b, block_content b)) bs"
    using dk by (rule store_blocks_distinct_keys)
  also have "\<dots> = map (\<lambda>b. (''Module '' @ fst b, join ''\<newline>'' ((''Module '' @ fst b) # body_text (snd b)))) blocks"
    unfolding bs_def map_map
  proof (rule map_cong [OF refl])
    fix b assume "b \<in> set blocks"
    then show "((\<lambda>b. (block_key b, block_content b)) \<circ> mk) b
       = (''Module '' @ fst b, join ''\<newline>'' ((''Module '' @ fst b) # body_text (snd b)))"
      using hdr(1) [of b] by (simp add: mk_def block_key_def block_content_def)
  qed
  finally show ?thesis by (simp only: lines)
qed

lemma numbered_fst: "map fst (numbered bodies) = map (\<lambda>i. str_nat (Suc i)) [0..<length bodies]"
proof -
  have "map fst (numbered bodies)
        = map ((\<lambda>i. str_nat (Suc i)) \<circ> fst) (zip [0..<length bodies] bodies)"
    by (simp add: numbered_def enumerate_eq_zip case_prod_unfold comp_def)
  also have "\<dots> = map (\<lambda>i. str_nat (Suc i)) (map fst (zip [0..<length bodies] bodies))"
    by (simp only: map_map)
  also have "\<dots> = map (\<lambda>i. str_nat (Suc i)) [0..<length bodies]"
    by simp
  finally show ?thesis .
qed

lemma numbered_snd: "b \<in> set (numbered bodies) \<Longrightarrow> snd b \<in> set bodies"
  by (auto simp: numbered_def enumerate_eq_zip dest: set_zip_rightD)

lemma numbered_fst_digits:
  "b \<in> set (numbered bodies) \<Longrightarrow> fst b \<noteq> [] \<and> (\<forall>c \<in> set (fst b). is_digit c)"
  by (auto simp: numbered_def str_nat_nonempty str_nat_digits)

text \<open>
  The parser on blocks whose lines match no header pattern.  Take a syllabus made of
  some lines that are no headers, followed by the header lines \<open>Module 1\<close>, ...,
  \<open>Module K\<close> in this order, each followed by its own block of lines that are no
  headers (\<open>numbered bodies\<close> pairs the i-th block with the decimal digits of i,
  counting from 1).  The parser returns exactly K entries, in the order of the
  headers; the entry of \<open>Module i\<close> has the content made of its header line and the
  non-blank lines of its own block, each stripped, joined by newlines: lines of the
  text before the first header or of another block are not part of it.
\<close>

theorem parse_numbered_modules:
  assumes "\<forall>l \<in> set pre. header_number l = None \<and> no_newline l"
    and "\<forall>body \<in> set bodies. \<forall>l \<in> set body. header_number l = None \<and> no_newline l"
  shows "parse_all_modules_from_syllabus
           (join ''\<newline>'' (pre @ concat (map (\<lambda>(n, body). (''Module '' @ n) # body) (numbered bodies))))
         = map (\<lambda>(n, body). (''Module '' @ n, join ''\<newline>'' ((''Module '' @ n) # body_text body)))
             (numbered bodies)
       \<and> length (parse_all_modules_from_syllabus
           (join ''\<newline>'' (pre @ concat (map (\<lambda>(n, body). (''Module '' @ n) # body) (numbered bodies)))))
         = length bodies
       \<and> map fst (numbered bodies) = map (\<lambda>i. str_nat (Suc i)) [0..<length bodies]"
proof -
  have "inj_on (\<lambda>i. str_nat (Suc i)) (set [0..<length bodies])"
    by (auto simp: inj_on_def dest: str_nat_inj)
  then have dist: "distinct (map fst (numbered bodies))"
    by (simp add: numbered_fst distinct_map)
  have blocks: "\<forall>b \<in> set (numbered bodies). fst b \<noteq> [] \<and> (\<forall>c \<in> set (fst b). is_digit c)
                   \<and> (\<forall>l \<in> set (snd b). header_number l = None \<and> no_newline l)"
    using assms(2) numbered_snd numbered_fst_digits by blast
  have eq: "parse_all_modules_from_syllabus
           (join ''\<newline>'' (pre @ concat (map (\<lambda>(n, body). (''Module '' @ n) # body) (numbered bodies))))
         = map (\<lambda>(n, body). (''Module '' @ n, join ''\<newline>'' ((''Module '' @ n) # body_text body)))
             (numbered bodies)"
    using parse_digit_headers [OF assms(1) blocks dist] by (simp only: case_prod_unfold)
  have "length (numbered bodies) = length bodies"
    by (simp add: numbered_def)
  with eq numbered_fst show ?thesis by simp
qed

text \<open>The theorem at a syllabus with an introduction line and two modules.\<close>

theorem parse_numbered_modules_witness:
  "parse_all_modules_from_syllabus
     ''Syllabus\<newline>Module 1\<newline>Arrays\<newline>  Lists  \<newline>Module 2\<newline>Trees''
   = [(''Module 1'', ''Module 1\<newline>Arrays\<newline>Lists''), (''Module 2'', ''Module 2\<newline>Trees'')]"
proof -
  have h1: "\<forall>l \<in> set [''Syllabus'']. header_number l = None \<and> no_newline l"
    by code_simp
  have h2: "\<forall>body \<in> set [[''Arrays'', ''  Lists  ''], [''Trees'']].
              \<forall>l \<in> set body. header_number l = None \<and> no_newline l"
    by code_simp
  have e1: "numbered [[''Arrays'', ''  Lists  ''], [''Trees'']]
            = [(''1'', [''Arrays'', ''  Lists  '']), (''2'', [''Trees''])]"
    by code_simp
  have e2: "body_text [''Arrays'', ''  Lists  ''] = [''Arrays'', ''Lists'']"
    "body_text [''Trees''] = [''Trees'']"
    by code_simp+
  from parse_numbered_modules [OF h1 h2] show ?thesis
    by (simp add: e1 e2)
qed

text \<open>
  C5.  A line of a block that a header pattern matches opens an entry of its own: a
  line that starts with a number followed by a colon, a dot or a dash (the last
  pattern), or with \<open>chapter\<close> or \<open>unit\<close> and a number.  The syllabus of
  \<open>tests/test_microcontroller_exact.py\<close> has the seven headers \<open>Module 1\<close> to
  \<open>Module 7\<close>, and the first line under the header of Module 2 starts with
  \<open>16-bit\<close>.  On it the parser returns eight entries and not seven: the entry of
  \<open>Module 2\<close> holds its header line and nothing else, and the four lines between this
  header and the next are the content of an entry \<open>Module 16\<close>.
\<close>

theorem parse_microcontroller_syllabus:
  "parse_all_modules_from_syllabus microcontroller_syllabus =
     [(''Module 1'',
         ''Module 1: Introduction to Microprocessors\<newline>Basic concepts of microprocessors, evolution from 4-bit to 64-bit processors,\<newline>comparison between microprocessors and microcontrollers.''),
      (''Module 2'',
         ''Module 2: Microprocessor Architecture and Interfacing: Intel x86''),
      (''Module 16'',
         ''16-bit Microprocessor: 8086 - Architecture and Addressing modes, Memory Segmentation,\<newline>Instruction Set, Assembly Language Processing, Programming with DOS and BIOS function\<newline>calls, minimum and maximum mode configuration, Programmable Peripheral Interface\<newline>(8255), Programmable Timer Controller (8254), Memory Interface to 8086.''),
      (''Module 3'',
         ''Module 3: Intel 8051 Microcontroller\<newline>Architecture of 8051, Pin diagram, Memory organization, Addressing modes,\<newline>Instruction set, Assembly language programming, Interrupts and interrupt handling.''),
      (''Module 4'',
         ''Module 4: Advanced Features of 8051\<newline>Timers and counters, Serial communication, Power control modes,\<newline>Real-time clock implementation, Watchdog timer concepts.''),
      (''Module 5'',
         ''Module 5: I/O Interfacing with Microcontroller 8051\<newline>LCD, LED, Keypad, Analog-to-Digital Convertors, Digital-to-Analog Convertors, Sensor with\<newline>Signal Conditioning Interface.''),
      (''Module 6'',
         ''Module 6: ARM Architecture and Programming\<newline>ARM processor architecture, instruction set, programming model, exception handling,\<newline>ARM assembly language programming, thumb instruction set.''),
      (''Module 7'',
         ''Module 7: Embedded System Design\<newline>Embedded system components, design methodology, real-time operating systems,\<newline>embedded software development, testing and debugging techniques.'')]"
  (is "_ = ?entries")
proof -
  have nl: "\<forall>l \<in> set microcontroller_lines. no_newline l"
    by code_simp
  have "parse_lines microcontroller_lines = ?entries"
    by code_simp
  with parse_text_lines [OF nl] show ?thesis
    by (simp only: microcontroller_syllabus_def)
qed

text \<open>
  The same on four lines: two headers, three entries, and the line under the first
  header is not part of the entry of \<open>Module 1\<close>.
\<close>

lemma parse_bare_number_line:
  "parse_all_modules_from_syllabus ''Module 1\<newline>16-bit processors\<newline>Module 2\<newline>Trees''
   = [(''Module 1'', ''Module 1''), (''Module 16'', ''16-bit processors''),
      (''Module 2'', ''Module 2\<newline>Trees'')]"
  by code_simp

text \<open>
  C9 (as amended).  A line that is not blank and matches no header pattern is
  appended to the content of the open module after its leading and trailing white
  space is removed; a blank line changes nothing.  The lines before the first header
  are discarded: the result is that of parsing the remaining lines.  A text with no
  header line yields the empty module map.
\<close>

theorem parser_line_handling:
  "(strip l \<noteq> [] \<longrightarrow> first_match module_patterns (lower (strip l)) = None \<longrightarrow>
      current_module st = Some m \<longrightarrow> m \<noteq> [] \<longrightarrow>
      parse_line st l = st\<lparr>current_content := current_content st @ [strip l]\<rparr>)
   \<and> (strip l = [] \<longrightarrow> parse_line st l = st)
   \<and> ((\<forall>l \<in> set pre. header_number l = None) \<longrightarrow> split_nl txt = pre @ rest \<longrightarrow>
        parse_all_modules_from_syllabus txt = parse_lines rest)
   \<and> ((\<forall>l \<in> set (split_nl txt). header_number l = None) \<longrightarrow>
        parse_all_modules_from_syllabus txt = [])"
proof -
  let ?init = "\<lparr>st_modules = [], current_module = None, current_content = []\<rparr>"
  have a: "parse_line st l = st\<lparr>current_content := current_content st @ [strip l]\<rparr>"
    if "strip l \<noteq> []" "first_match module_patterns (lower (strip l)) = None"
      "current_module st = Some m" "m \<noteq> []"
    using that by (simp add: parse_line_def)
  have b: "parse_all_modules_from_syllabus txt = parse_lines rest"
    if "\<forall>l \<in> set pre. header_number l = None" "split_nl txt = pre @ rest" for pre rest
  proof -
    have "foldl parse_line ?init pre = ?init"
      using that(1) by (intro parse_preamble) simp_all
    with that(2) show ?thesis
      by (simp add: parse_all_modules_from_syllabus_def parse_lines_def)
  qed
  have c: "parse_all_modules_from_syllabus txt = []"
    if "\<forall>l \<in> set (split_nl txt). header_number l = None"
    using b [of "split_nl txt" "[]"] that by (simp add: parse_lines_def flush_def)
  from a b c show ?thesis
    by (simp add: parse_line_blank)
qed

text \<open>The four parts at concrete lines and texts.\<close>

theorem parser_line_handling_witness:
  "parse_line \<lparr>st_modules = [], current_module = Some ''Module 1'', current_content = [''Module 1'']\<rparr>
       ''  topic A  ''
     = \<lparr>st_modules = [], current_module = Some ''Module 1'', current_content = [''Module 1'', ''topic A'']\<rparr>
   \<and> parse_line \<lparr>st_modules = [], current_module = Some ''Module 1'', current_content = [''Module 1'']\<rparr>
       ''   ''
     = \<lparr>st_modules = [], current_module = Some ''Module 1'', current_content = [''Module 1'']\<rparr>
   \<and> parse_all_modules_from_syllabus ''Preface\<newline>Module 1\<newline>Arrays''
     = parse_lines [''Module 1'', ''Arrays'']
   \<and> parse_all_modules_from_syllabus ''Preface\<newline>reading list'' = []"
proof -
  let ?st = "\<lparr>st_modules = [], current_module = Some ''Module 1'', current_content = [''Module 1'']\<rparr>"
  have s1: "strip ''  topic A  '' = ''topic A''" by code_simp
  have m1: "first_match module_patterns (lower ''topic A'') = None" by code_simp
  have s2: "strip ''   '' = []" by code_simp
  have p1: "\<forall>l \<in> set [''Preface'']. header_number l = None" by code_simp
  have sp1: "split_nl ''Preface\<newline>Module 1\<newline>Arrays'' = [''Preface''] @ [''Module 1'', ''Arrays'']"
    by code_simp
  have p2: "\<forall>l \<in> set (split_nl ''Preface\<newline>reading list''). header_number l = None" by code_simp
  have a: "parse_line ?st ''  topic A  '' = ?st\<lparr>current_content := current_content ?st @ [''topic A'']\<rparr>"
    using parser_line_handling [of "''  topic A  ''" ?st "''Module 1''"] s1 m1 by simp
  have b: "parse_line ?st ''   '' = ?st"
    using parser_line_handling [of "''   ''" ?st] s2 by simp
  have c: "parse_all_modules_from_syllabus ''Preface\<newline>Module 1\<newline>Arrays''
     = parse_lines [''Module 1'', ''Arrays'']"
    using parser_line_handling [of _ _ _ "[''Preface'']" "''Preface\<newline>Module 1\<newline>Arrays''" "[''Module 1'', ''Arrays'']"]
      p1 sp1 by blast
  have d: "parse_all_modules_from_syllabus ''Preface\<newline>reading list'' = []"
    using parser_line_handling [of _ _ _ _ "''Preface\<newline>reading list''"] p2 by blast
  from a b c d show ?thesis by simp
qed

text \<open>
  C9 as stated fails: the line \<open>"  topic A  "\<close> matches no header pattern, and what is
  appended to the content of Module 1 is \<open>"topic A"\<close>, not the line as it stands.
\<close>

theorem verbatim_append_counterexample:
  "first_match module_patterns (lower (strip ''  topic A  '')) = None
   \<and> current_content
        (parse_line \<lparr>st_modules = [], current_module = Some ''Module 1'', current_content = [''Module 1'']\<rparr>
           ''  topic A  '')
      = [''Module 1'', ''topic A'']
   \<and> parse_all_modules_from_syllabus ''Module 1\<newline>  topic A  ''
      = [(''Module 1'', ''Module 1\<newline>topic A'')]"
  by code_simp

text \<open>
  C10.  Let the syllabus consist of lines that are no headers followed by blocks, and
  let \<open>b\<close> be a block such that no later block has its module number (earlier blocks
  may).  Then the returned map has the content of \<open>b\<close> under the key of \<open>b\<close>;
  and every entry of the returned map is the key and the content of a block that is the
  last one of its number, so no entry is built from the lines of an earlier block with
  the same number.
\<close>

theorem last_block_wins:
  assumes "\<forall>l \<in> set pre. header_number l = None \<and> no_newline l"
    and "\<forall>c \<in> set (bs1 @ b # bs2). block_ok c \<and> (\<forall>l \<in> set (block_lines c). no_newline l)"
    and "\<forall>c \<in> set bs2. block_key c \<noteq> block_key b"
  shows "map_of (parse_all_modules_from_syllabus
                  (join ''\<newline>'' (pre @ concat (map block_lines (bs1 @ b # bs2)))))
           (block_key b) = Some (block_content b)
     \<and> (\<forall>k v. (k, v) \<in> set (parse_all_modules_from_syllabus
                  (join ''\<newline>'' (pre @ concat (map block_lines (bs1 @ b # bs2))))) \<longrightarrow>
          (\<exists>cs1 c cs2. bs1 @ b # bs2 = cs1 @ c # cs2 \<and> block_key c \<notin> block_key ` set cs2
              \<and> k = block_key c \<and> v = block_content c))"
proof -
  let ?bs = "bs1 @ b # bs2"
  have nl: "\<forall>l \<in> set (pre @ concat (map block_lines ?bs)). no_newline l"
    using assms(1,2) by auto
  have "parse_all_modules_from_syllabus (join ''\<newline>'' (pre @ concat (map block_lines ?bs)))
        = parse_lines (pre @ concat (map block_lines ?bs))"
    using nl by (rule parse_text_lines)
  also have "\<dots> = foldl store_block [] ?bs"
    using assms(1,2) by (intro parse_lines_blocks) simp_all
  finally have eq: "parse_all_modules_from_syllabus (join ''\<newline>'' (pre @ concat (map block_lines ?bs)))
        = foldl store_block [] ?bs" .
  from assms(3) have "block_key b \<notin> block_key ` set bs2" by auto
  then have "map_of (foldl store_block [] ?bs) (block_key b) = Some (block_content b)"
    by (rule map_of_store_blocks_last)
  with eq store_blocks_entry [of _ _ ?bs] show ?thesis
    by (simp only:) blast
qed

text \<open>A \<open>Chapter 3\<close> header followed later by a \<open>Module 3\<close> header.\<close>

theorem last_block_wins_witness:
  "map_of (parse_all_modules_from_syllabus
     ''Chapter 3\<newline>old lines\<newline>Module 3\<newline>new lines'') ''Module 3''
   = Some ''Module 3\<newline>new lines''"
proof -
  let ?b1 = "(''3'', ''Chapter 3'', [''old lines''])"
  let ?b = "(''3'', ''Module 3'', [''new lines''])"
  have h1: "\<forall>l \<in> set []. header_number l = None \<and> no_newline l" by simp
  have h2: "\<forall>c \<in> set ([?b1] @ ?b # []). block_ok c \<and> (\<forall>l \<in> set (block_lines c). no_newline l)"
    by code_simp
  have h3: "\<forall>c \<in> set []. block_key c \<noteq> block_key ?b" by simp
  have e: "block_key ?b = ''Module 3''" "block_content ?b = ''Module 3\<newline>new lines''"
    "join ''\<newline>'' ([] @ concat (map block_lines ([?b1] @ ?b # [])))
      = ''Chapter 3\<newline>old lines\<newline>Module 3\<newline>new lines''"
    by code_simp+
  from last_block_wins [OF h1 h2 h3] show ?thesis
    by (simp only: e)
qed

subsection \<open>The content selector\<close>

lemma select_module_unresolved:
  assumes "\<not> resolves all_modules module_name"
  shows "select_module all_modules acc module_name = acc"
proof -
  from assms have no_key: "map_of all_modules module_name = None"
    by (simp add: resolves_def)
  show ?thesis
  proof (cases "extract_module_number module_name")
    case None
    with no_key show ?thesis
      by (simp add: select_module_def split: prod.splits)
  next
    case (Some module_num)
    show ?thesis
    proof (cases "module_num = []")
      case True
      with Some no_key show ?thesis
        by (simp add: select_module_def split: prod.splits)
    next
      case False
      with Some assms have "\<forall>key \<in> set (dict_keys all_modules). extract_module_number key \<noteq> Some module_num"
        by (auto simp: resolves_def)
      then have "find (\<lambda>entry. extract_module_number (fst entry) = Some module_num) all_modules = None"
        by (auto simp: find_None_all dict_keys_def)
      with Some False no_key show ?thesis
        by (simp add: select_module_def split: prod.splits)
    qed
  qed
qed

lemma select_unresolved:
  "\<forall>m \<in> set selected. \<not> resolves all_modules m \<Longrightarrow>
   foldl (select_module all_modules) acc selected = acc"
  by (induction selected arbitrary: acc) (simp_all add: select_module_unresolved)

text \<open>
  C6.  The selector is a total function from a module map and a list of requested
  labels to a string: no input makes it raise.  When no requested label resolves,
  neither as a key of the map nor through its number, the string returned is the error
  response, which contains the requested labels joined by \<open>", "\<close> and the keys of the
  map joined by \<open>", "\<close>.
\<close>

theorem select_content_unresolved:
  assumes "\<forall>m \<in> set selected_modules. \<not> resolves all_modules m"
  shows "select_content all_modules selected_modules
           = create_error_response selected_modules (dict_keys all_modules)
     \<and> sublist (join '', '' selected_modules) (select_content all_modules selected_modules)
     \<and> sublist (join '', '' (dict_keys all_modules)) (select_content all_modules selected_modules)"
proof -
  from assms have "foldl (select_module all_modules) ([], []) selected_modules = ([], [])"
    by (rule select_unresolved)
  then have eq: "select_content all_modules selected_modules
           = create_error_response selected_modules (dict_keys all_modules)"
    by (simp add: select_content_def)
  have "sublist (join '', '' selected_modules)
          (create_error_response selected_modules (dict_keys all_modules))"
    unfolding create_error_response_def sublist_def by (metis append.assoc)
  moreover have "sublist (join '', '' (dict_keys all_modules))
          (create_error_response selected_modules (dict_keys all_modules))"
    unfolding create_error_response_def sublist_def by (metis append.assoc)
  ultimately show ?thesis using eq by simp
qed

text \<open>
  Module 9 is requested from a syllabus that has Module 1 and Module 2 only.
\<close>

theorem select_content_unresolved_witness:
  "extract_module_content ''Module 1\<newline>Arrays\<newline>Module 2\<newline>Trees'' [''Module 9'']
   = create_error_response [''Module 9''] [''Module 1'', ''Module 2'']"
proof -
  have p: "parse_all_modules_from_syllabus ''Module 1\<newline>Arrays\<newline>Module 2\<newline>Trees''
           = [(''Module 1'', ''Module 1\<newline>Arrays''), (''Module 2'', ''Module 2\<newline>Trees'')]"
    by code_simp
  have n: "extract_module_number ''Module 9'' = Some ''9''"
    "extract_module_number ''Module 1'' = Some ''1''"
    "extract_module_number ''Module 2'' = Some ''2''"
    by code_simp+
  have h: "\<forall>m \<in> set [''Module 9'']. \<not> resolves
      [(''Module 1'', ''Module 1\<newline>Arrays''), (''Module 2'', ''Module 2\<newline>Trees'')] m"
    by (simp add: resolves_def dict_keys_def n)
  from select_content_unresolved [OF h] show ?thesis
    by (simp add: extract_module_content_def p dict_keys_def)
qed

subsection \<open>Request validation\<close>

lemma module_labels_eq:
  "module_labels = [''Module 1'', ''Module 2'', ''Module 3'', ''Module 4'', ''Module 5'',
                    ''Module 6'', ''Module 7'', ''Module 8'', ''Module 9'', ''Module 10'']"
  by code_simp

lemma space_not_digit: "is_space c \<Longrightarrow> \<not> is_digit c"
  using digit_not_space by blast

lemma takeWhile_run:
  assumes "\<forall>c \<in> set xs. P c" and "ys = [] \<or> \<not> P (hd ys)"
  shows "takeWhile P (xs @ ys) = xs" and "dropWhile P (xs @ ys) = ys"
proof -
  from assms(2) have t: "takeWhile P ys = []" and d: "dropWhile P ys = ys"
    by (cases ys; simp)+
  from assms(1) t show "takeWhile P (xs @ ys) = xs" by (simp add: takeWhile_append2)
  from assms(1) d show "dropWhile P (xs @ ys) = ys" by (simp add: dropWhile_append2)
qed

lemma match_module_num_shape:
  assumes "match_module_num s = Some (d, rest)"
  shows "\<exists>w ws. s = w @ ws @ d @ rest \<and> length w = 6 \<and> lower w = ''module''
           \<and> ws \<noteq> [] \<and> (\<forall>c \<in> set ws. is_space c)
           \<and> d \<noteq> [] \<and> (\<forall>c \<in> set d. is_digit c)
           \<and> (rest = [] \<or> \<not> is_digit (hd rest))"
proof -
  let ?r = "drop 6 s"
  let ?r2 = "dropWhile is_space ?r"
  from assms have len: "6 \<le> length s" and low: "lower (take 6 s) = ''module''"
    and ws: "takeWhile is_space ?r \<noteq> []" and d: "d = takeWhile is_digit ?r2" "d \<noteq> []"
    and rest: "rest = dropWhile is_digit ?r2"
    by (auto simp: match_module_num_def Let_def split: if_splits)
  have "s = take 6 s @ ?r" by simp
  also have "?r = takeWhile is_space ?r @ ?r2" by simp
  also have "?r2 = d @ rest" by (simp add: d rest)
  finally have s: "s = take 6 s @ takeWhile is_space ?r @ d @ rest" .
  have "\<forall>c \<in> set (takeWhile is_space ?r). is_space c"
    by (auto dest: set_takeWhileD)
  moreover have "\<forall>c \<in> set d. is_digit c"
    by (auto simp: d dest: set_takeWhileD)
  moreover have "rest = [] \<or> \<not> is_digit (hd rest)"
    unfolding rest by (metis hd_dropWhile)
  moreover from len have "length (take 6 s) = 6" by simp
  ultimately show ?thesis using s low ws d(2) by blast
qed

lemma match_module_num_intro:
  assumes "length w = 6" "lower w = ''module''" "ws \<noteq> []" "\<forall>c \<in> set ws. is_space c"
    "d \<noteq> []" "\<forall>c \<in> set d. is_digit c" "rest = [] \<or> \<not> is_digit (hd rest)"
  shows "match_module_num (w @ ws @ d @ rest) = Some (d, rest)"
proof -
  from assms(5,6) have "\<not> is_space (hd (d @ rest))" "d @ rest \<noteq> []"
    by (simp_all add: digit_not_space)
  then have a: "takeWhile is_space (ws @ d @ rest) = ws" "dropWhile is_space (ws @ d @ rest) = d @ rest"
    using takeWhile_run [of ws is_space "d @ rest"] assms(4) by simp_all
  have b: "takeWhile is_digit (d @ rest) = d" "dropWhile is_digit (d @ rest) = rest"
    using takeWhile_run [of d is_digit rest] assms(6,7) by simp_all
  from assms(1,2,3,5) show ?thesis
    by (simp add: match_module_num_def a b)
qed

lemma re_sub_module_last:
  "s \<noteq> [] \<Longrightarrow> \<not> is_space (last s) \<Longrightarrow>
   re_sub_module s \<noteq> [] \<and> \<not> is_space (last (re_sub_module s))"
proof (induction s rule: re_sub_module.induct)
  case 1
  then show ?case by simp
next
  case (2 c cs)
  show ?case
  proof (cases "match_module_num (c # cs)")
    case None
    show ?thesis
    proof (cases "cs = []")
      case True
      with None "2.prems" show ?thesis by simp
    next
      case False
      with "2.prems" have "\<not> is_space (last cs)" by simp
      with False None "2.IH"(1) have "re_sub_module cs \<noteq> [] \<and> \<not> is_space (last (re_sub_module cs))"
        by simp
      with None show ?thesis by simp
    qed
  next
    case (Some x)
    obtain d rest where x: "x = (d, rest)" by (cases x)
    from Some x obtain w ws where shape: "c # cs = w @ ws @ d @ rest" "d \<noteq> []" "\<forall>c \<in> set d. is_digit c"
      using match_module_num_shape [of "c # cs" d rest] by auto
    have out: "re_sub_module (c # cs) = ''Module '' @ d @ re_sub_module rest"
      using Some x by simp
    show ?thesis
    proof (cases "rest = []")
      case True
      with shape have "\<not> is_space (last d)" by (simp add: digit_not_space)
      with True shape(2) out show ?thesis by simp
    next
      case False
      with shape(1) have "last rest = last (c # cs)" by simp
      with "2.prems" have nsp: "\<not> is_space (last rest)" by simp
      have "re_sub_module rest \<noteq> [] \<and> \<not> is_space (last (re_sub_module rest))"
        by (rule "2.IH"(2) [OF Some x [symmetric] False nsp])
      with out show ?thesis by simp
    qed
  qed
qed

lemma re_sub_module_no_M:
  "CHR ''M'' \<notin> set (re_sub_module t) \<Longrightarrow> re_sub_module t = t"
proof (induction t rule: re_sub_module.induct)
  case 1
  then show ?case by simp
next
  case (2 c cs)
  show ?case
  proof (cases "match_module_num (c # cs)")
    case None
    with "2.prems" "2.IH"(1) show ?thesis by simp
  next
    case (Some x)
    with "2.prems" show ?thesis by (cases x) simp
  qed
qed

lemma lit_SomeD: "lit p s = Some r \<Longrightarrow> s = p @ r"
proof -
  assume "lit p s = Some r"
  then have "take (length p) s = p" "r = drop (length p) s"
    by (auto simp: lit_def split: if_splits)
  then show ?thesis using append_take_drop_id [of "length p" s] by simp
qed

lemma label_match_shape:
  assumes "label_match L"
  shows "\<exists>ws N e. L = ''Module'' @ ws @ N @ e \<and> ws \<noteq> [] \<and> (\<forall>c \<in> set ws. is_space c)
           \<and> N \<in> set label_numbers \<and> (e = [] \<or> e = ''\<newline>'')"
proof -
  from assms obtain r where r: "lit ''Module'' L = Some r"
    by (auto simp: label_match_def split: option.splits)
  then have L: "L = ''Module'' @ r"
    by (rule lit_SomeD)
  let ?ws = "takeWhile is_space r"
  let ?r2 = "dropWhile is_space r"
  from assms r have ws: "?ws \<noteq> []"
    and alt: "(case ?r2 of [] \<Rightarrow> False | c # cs \<Rightarrow> c \<in> set ''123456789'' \<and> at_end cs)
                \<or> (case lit ''10'' ?r2 of None \<Rightarrow> False | Some t \<Rightarrow> at_end t)"
    by (auto simp: label_match_def Let_def)
  have wsp: "\<forall>c \<in> set ?ws. is_space c" by (auto dest: set_takeWhileD)
  have rr: "r = ?ws @ ?r2" by simp
  from alt have "\<exists>N e. ?r2 = N @ e \<and> N \<in> set label_numbers \<and> (e = [] \<or> e = ''\<newline>'')"
  proof
    assume "case ?r2 of [] \<Rightarrow> False | c # cs \<Rightarrow> c \<in> set ''123456789'' \<and> at_end cs"
    then obtain c cs where c: "?r2 = c # cs" "c \<in> set ''123456789''" "at_end cs"
      by (auto split: list.splits)
    then have "?r2 = [c] @ cs" "[c] \<in> set label_numbers" "cs = [] \<or> cs = ''\<newline>''"
      by (auto simp: label_numbers_def at_end_def)
    then show ?thesis by blast
  next
    assume "case lit ''10'' ?r2 of None \<Rightarrow> False | Some t \<Rightarrow> at_end t"
    then obtain t where t: "lit ''10'' ?r2 = Some t" "at_end t"
      by (auto split: option.splits)
    then have "?r2 = ''10'' @ t"
      by (intro lit_SomeD)
    moreover have "''10'' \<in> set label_numbers" by (simp add: label_numbers_def)
    moreover from t(2) have "t = [] \<or> t = ''\<newline>''" by (simp add: at_end_def)
    ultimately show ?thesis by blast
  qed
  then obtain N e where "?r2 = N @ e" "N \<in> set label_numbers" "e = [] \<or> e = ''\<newline>''"
    by blast
  with rr have "r = ?ws @ N @ e" by simp
  with L have "L = ''Module'' @ ?ws @ N @ e" by simp
  with ws wsp \<open>N \<in> set label_numbers\<close> \<open>e = [] \<or> e = ''\<newline>''\<close> show ?thesis
    by blast
qed

lemma label_number_digits:
  "N \<in> set label_numbers \<Longrightarrow> N \<noteq> [] \<and> (\<forall>c \<in> set N. is_digit c)"
  unfolding label_numbers_def is_digit_def by (elim rev_mp) simp

lemma space_prefix:
  assumes "CHR '' '' # Y = ws @ Z" "ws \<noteq> []" "\<forall>c \<in> set ws. is_space c"
    "Y \<noteq> []" "is_digit (hd Y)"
  shows "ws = '' '' \<and> Y = Z"
proof -
  from assms(2) obtain a ws' where ws: "ws = a # ws'" by (cases ws) auto
  with assms(1) have Y: "Y = ws' @ Z" by simp
  have "ws' = []"
  proof (rule ccontr)
    assume "ws' \<noteq> []"
    with Y have "hd Y = hd ws'" by simp
    moreover from \<open>ws' \<noteq> []\<close> ws assms(3) have "is_space (hd ws')" by simp
    ultimately show False using assms(5) digit_not_space by simp
  qed
  with ws Y assms(1) show ?thesis by simp
qed

lemma strip_last: "strip m \<noteq> [] \<Longrightarrow> \<not> is_space (last (strip m))"
proof -
  let ?xs = "dropWhile is_space (rev (dropWhile is_space m))"
  assume "strip m \<noteq> []"
  then have ne: "?xs \<noteq> []" by (simp add: strip_def)
  then have "\<not> is_space (hd ?xs)" by (rule hd_dropWhile)
  with ne show ?thesis by (simp add: strip_def last_rev)
qed

lemma lower_Module: "lower ''Module'' = ''module''"
  by code_simp

lemma labelled_no_newline_end:
  assumes "L = ''Module'' @ ws @ N @ e" "e = [] \<or> e = ''\<newline>''" "L \<noteq> []" "\<not> is_space (last L)"
  shows "e = []"
proof (rule ccontr)
  assume "e \<noteq> []"
  with assms(2) have "e = ''\<newline>''" by simp
  with assms(1) have "last L = CHR ''\<newline>''" by simp
  moreover have "is_space (CHR ''\<newline>'')" by (simp add: is_space_def)
  ultimately show False using assms(4) by simp
qed

lemma re_sub_module_label:
  assumes "s \<noteq> []" "\<not> is_space (last s)" "label_match (re_sub_module s)"
  shows "\<exists>N \<in> set label_numbers. re_sub_module s = ''Module '' @ N"
proof -
  let ?L = "re_sub_module s"
  from assms(3) obtain ws N e where L: "?L = ''Module'' @ ws @ N @ e" and ws: "ws \<noteq> []"
    "\<forall>c \<in> set ws. is_space c" and N: "N \<in> set label_numbers" and e: "e = [] \<or> e = ''\<newline>''"
    using label_match_shape by blast
  from re_sub_module_last [OF assms(1,2)] have "?L \<noteq> []" "\<not> is_space (last ?L)" by simp_all
  with L e have "e = []" by (intro labelled_no_newline_end [of ?L ws N e]) simp_all
  with L have L': "?L = ''Module'' @ ws @ N" by simp
  from N have Nd: "N \<noteq> []" "\<forall>c \<in> set N. is_digit c" using label_number_digits by blast+
  from assms(1) obtain c cs where s: "s = c # cs" by (cases s) auto
  show ?thesis
  proof (cases "match_module_num (c # cs)")
    case (Some x)
    obtain d rest where x: "x = (d, rest)" by (cases x)
    with Some obtain dd: "d \<noteq> []" "\<forall>c \<in> set d. is_digit c"
      using match_module_num_shape [of "c # cs" d rest] by auto
    from Some x s have "?L = ''Module '' @ d @ re_sub_module rest" by simp
    with L' have "CHR '' '' # (d @ re_sub_module rest) = ws @ N" by simp
    moreover from dd have "d @ re_sub_module rest \<noteq> []" "is_digit (hd (d @ re_sub_module rest))"
      by simp_all
    ultimately have "ws = '' ''" using ws space_prefix by blast
    with L' N show ?thesis by auto
  next
    case None
    with s have out: "?L = c # re_sub_module cs" by simp
    with L' have c: "c = CHR ''M''" and tl: "re_sub_module cs = ''odule'' @ ws @ N" by simp_all
    have "\<not> is_space (CHR ''M'')" by (simp add: is_space_def)
    with ws(2) have "CHR ''M'' \<notin> set ws" by blast
    moreover have "\<not> is_digit (CHR ''M'')" by (simp add: is_digit_def)
    with Nd(2) have "CHR ''M'' \<notin> set N" by blast
    ultimately have "CHR ''M'' \<notin> set (re_sub_module cs)" by (simp add: tl)
    then have "re_sub_module cs = cs" by (rule re_sub_module_no_M)
    with tl c have "c # cs = ''Module'' @ ws @ N @ []" by simp
    moreover have "match_module_num (''Module'' @ ws @ N @ []) = Some (N, [])"
      using ws Nd by (intro match_module_num_intro) (simp_all add: lower_Module)
    ultimately show ?thesis using None by simp
  qed
qed

lemma bare_number_label:
  assumes "m \<noteq> []" "\<not> is_space (last m)" "all_digits m" "label_match (''Module '' @ m)"
  shows "\<exists>N \<in> set label_numbers. ''Module '' @ m = ''Module '' @ N"
proof -
  from assms(4) obtain ws N e where L: "''Module '' @ m = ''Module'' @ ws @ N @ e" and ws: "ws \<noteq> []"
    "\<forall>c \<in> set ws. is_space c" and N: "N \<in> set label_numbers" and e: "e = [] \<or> e = ''\<newline>''"
    using label_match_shape by blast
  from assms(1,2) have "\<not> is_space (last (''Module '' @ m))" by simp
  with L e have "e = []" by (intro labelled_no_newline_end [of "''Module '' @ m" ws N e]) simp_all
  with L have eq: "CHR '' '' # m = ws @ N" by simp
  from assms(3) have "takeWhile is_digit m \<noteq> []" by (simp add: all_digits_def)
  then have "is_digit (hd m)" by (cases m) (auto split: if_splits)
  with eq ws assms(1) have "m = N" using space_prefix by blast
  with N show ?thesis by blast
qed

lemma validate_each_labels:
  "validate_each v = Inr ms \<Longrightarrow>
   (\<forall>m \<in> set ms. \<exists>N \<in> set label_numbers. m = ''Module '' @ N)
   \<and> length ms = length (filter (\<lambda>m. strip m \<noteq> []) v)"
proof (induction v arbitrary: ms)
  case Nil
  then show ?case by simp
next
  case (Cons m v)
  show ?case
  proof (cases "strip m = []")
    case True
    with Cons show ?thesis by simp
  next
    case False
    let ?n = "if all_digits (strip m) then ''Module '' @ strip m else re_sub_module (strip m)"
    from Cons.prems False have lm: "label_match ?n"
      by (auto simp: Let_def split: if_splits)
    from Cons.prems False lm obtain rest where rest: "validate_each v = Inr rest" "ms = ?n # rest"
      by (auto simp: Let_def split: if_splits sum.splits)
    have nsp: "\<not> is_space (last (strip m))" using False by (rule strip_last)
    have "\<exists>N \<in> set label_numbers. ?n = ''Module '' @ N"
    proof (cases "all_digits (strip m)")
      case True
      with lm bare_number_label [OF False nsp True] show ?thesis by simp
    next
      case nd: False
      with lm re_sub_module_label [OF False nsp] show ?thesis by simp
    qed
    with rest Cons.IH [OF rest(1)] False show ?thesis by simp
  qed
qed

lemma label_numbers_str_nat: "label_numbers = map str_nat [1..<11]"
  by code_simp

lemma label_number_range:
  "N \<in> set label_numbers \<Longrightarrow> \<exists>n. 1 \<le> n \<and> n \<le> 10 \<and> N = str_nat n"
  by (auto simp: label_numbers_str_nat)

lemma validate_modules_labels:
  assumes "validate_modules v = Inr ms"
  shows "ms \<noteq> [] \<and> (\<forall>m \<in> set ms. \<exists>n. 1 \<le> n \<and> n \<le> 10 \<and> m = ''Module '' @ str_nat n)
     \<and> length ms = length (filter (\<lambda>m. strip m \<noteq> []) v)"
proof -
  from assms have e: "validate_each v = Inr ms" and ne: "ms \<noteq> []"
    by (auto simp: validate_modules_def split: sum.splits if_splits)
  from validate_each_labels [OF e] label_number_range ne show ?thesis by blast
qed

text \<open>
  C8 (as amended).  Every request that is constructed carries between one and ten
  module labels, and each of them is \<open>Module N\<close> for a number N from 1 to 10, with
  one space.  The labels are not made unique: the request has one label for each
  entry of the input list that is not blank, in the order of the input.
\<close>

theorem request_modules_labels:
  assumes "new_request syllabus tt v = Inr r"
  shows "1 \<le> length (modules r) \<and> length (modules r) \<le> 10
     \<and> (\<forall>m \<in> set (modules r). \<exists>n. 1 \<le> n \<and> n \<le> 10 \<and> m = ''Module '' @ str_nat n)
     \<and> length (modules r) = length (filter (\<lambda>m. strip m \<noteq> []) v)"
proof -
  from assms obtain ms where ms: "modules_field v = Inr ms" and r: "modules r = ms"
    by (auto simp: new_request_def Let_def split: sum.splits if_splits)
  from ms have len: "length v \<le> 10" and vm: "validate_modules v = Inr ms"
    by (auto simp: modules_field_def split: if_splits sum.splits)
  from validate_modules_labels [OF vm] have ne: "ms \<noteq> []"
    and lab: "\<forall>m \<in> set ms. \<exists>n. 1 \<le> n \<and> n \<le> 10 \<and> m = ''Module '' @ str_nat n"
    and cnt: "length ms = length (filter (\<lambda>m. strip m \<noteq> []) v)" by simp_all
  from ne have "1 \<le> length ms" by (cases ms) simp_all
  from len have "length (filter (\<lambda>m. strip m \<noteq> []) v) \<le> 10"
    by (rule order_trans [OF length_filter_le])
  with cnt have "length ms \<le> 10" by simp
  with \<open>1 \<le> length ms\<close> show ?thesis using lab cnt r by simp
qed

text \<open>A request built from four entries, one of them blank and two for Module 3.\<close>

theorem request_modules_labels_witness:
  "1 \<le> length [''Module 3'', ''Module 10'', ''Module 3'']
   \<and> length [''Module 3'', ''Module 10'', ''Module 3''] \<le> 10
   \<and> new_request ''Module 3\<newline>Trees and graphs'' FAT [''module 3'', '' '', ''10'', ''MODULE  3'']
       = Inr \<lparr>syllabus_text = ''Module 3\<newline>Trees and graphs'', test_type = FAT,
              modules = [''Module 3'', ''Module 10'', ''Module 3'']\<rparr>"
proof -
  have c: "new_request ''Module 3\<newline>Trees and graphs'' FAT [''module 3'', '' '', ''10'', ''MODULE  3'']
       = Inr \<lparr>syllabus_text = ''Module 3\<newline>Trees and graphs'', test_type = FAT,
              modules = [''Module 3'', ''Module 10'', ''Module 3'']\<rparr>"
    by code_simp
  from request_modules_labels [OF c] show ?thesis using c by simp
qed

text \<open>
  C8 as stated fails: the entries \<open>Module 1\<close> and \<open>module 1\<close> are the same label after
  normalisation, the request is constructed, and its list holds the label twice.
\<close>

theorem request_modules_unique_counterexample:
  "new_request ''Module 1\<newline>Arrays and lists'' CAT1 [''Module 1'', ''module 1'']
     = Inr \<lparr>syllabus_text = ''Module 1\<newline>Arrays and lists'', test_type = CAT1,
            modules = [''Module 1'', ''Module 1'']\<rparr>
   \<and> \<not> distinct [''Module 1'', ''Module 1'']"
  by code_simp

lemma space_not_upper: "is_space c \<Longrightarrow> c \<notin> set upper_chars"
  unfolding is_space_def upper_chars_def by (elim rev_mp) simp

lemma module_word_head:
  assumes "lower w = ''module''"
  shows "length w = 6" and "w \<noteq> []" and "\<not> is_space (hd w)" and "\<not> is_digit (hd w)"
proof -
  from assms have "length (lower w) = 6" by simp
  then show len: "length w = 6" by (simp add: lower_def)
  then show ne: "w \<noteq> []" by auto
  from ne assms have m: "lower_char (hd w) = CHR ''m''"
    by (cases w) (simp_all add: lower_def)
  have "\<not> is_space (CHR ''m'')" by (simp add: is_space_def)
  with m show "\<not> is_space (hd w)"
    using space_not_upper [of "hd w"] lower_char_other [of "hd w"] by auto
  have "\<not> is_digit (CHR ''m'')" by (simp add: is_digit_def)
  with m show "\<not> is_digit (hd w)"
    using lower_digit [of "hd w"] by auto
qed

lemma label_match_labels:
  "list_all label_match [''Module 1'', ''Module 2'', ''Module 3'', ''Module 4'', ''Module 5'',
                    ''Module 6'', ''Module 7'', ''Module 8'', ''Module 9'', ''Module 10'']"
  by code_simp

lemma label_match_str_nat:
  assumes "1 \<le> n" "n \<le> 10"
  shows "label_match (''Module '' @ str_nat n)"
proof -
  from assms have "n \<in> set [1..<11]" by simp
  then have "(\<lambda>n. ''Module '' @ str_nat n) n \<in> (\<lambda>n. ''Module '' @ str_nat n) ` set [1..<11]"
    by (rule imageI)
  then have "''Module '' @ str_nat n \<in> set module_labels"
    by (simp only: module_labels_def set_map)
  with label_match_labels show ?thesis
    unfolding module_labels_eq list_all_iff by blast
qed

lemma spaced_label_normalised:
  assumes w: "lower w = ''module''" and ws: "ws \<noteq> []" "\<forall>c \<in> set ws. is_space c"
    and n: "1 \<le> n" "n \<le> 10"
  shows "validate_modules [w @ ws @ str_nat n] = Inr [''Module '' @ str_nat n]"
proof -
  let ?d = "str_nat n"
  let ?m = "w @ ws @ ?d"
  have d: "?d \<noteq> []" "\<forall>c \<in> set ?d. is_digit c"
    by (simp_all add: str_nat_nonempty str_nat_digits)
  note h = module_word_head [OF w]
  from d have "\<not> is_space (last ?m)" by (simp add: digit_not_space)
  moreover from h have "\<not> is_space (hd ?m)" by simp
  ultimately have s: "strip ?m = ?m" using h(2) by (intro strip_keep) simp_all
  from h have nd: "\<not> all_digits ?m"
    by (cases w) (simp_all add: all_digits_def)
  have "match_module_num (w @ ws @ ?d @ []) = Some (?d, [])"
    using h(1) w ws d by (intro match_module_num_intro) simp_all
  moreover from h(2) obtain c cs where "?m = c # cs" by (cases w) auto
  ultimately have r: "re_sub_module ?m = ''Module '' @ ?d" by simp
  from h(2) have ne: "?m \<noteq> []" by simp
  have "validate_each [?m] = Inr [''Module '' @ ?d]"
    by (simp only: validate_each.simps Let_def s nd r ne label_match_str_nat [OF n]
        if_True if_False not_True_eq_False sum.case)
  then show ?thesis
    by (simp add: validate_modules_def)
qed

lemma bare_label_normalised:
  assumes n: "1 \<le> n" "n \<le> 10"
  shows "validate_modules [str_nat n] = Inr [''Module '' @ str_nat n]"
proof -
  let ?d = "str_nat n"
  have d: "?d \<noteq> []" "\<forall>c \<in> set ?d. is_digit c"
    by (simp_all add: str_nat_nonempty str_nat_digits)
  then have "\<not> is_space (hd ?d)" "\<not> is_space (last ?d)"
    by (simp_all add: digit_not_space)
  with d(1) have s: "strip ?d = ?d" by (intro strip_keep)
  from d(2) have tw: "takeWhile is_digit ?d = ?d" "dropWhile is_digit ?d = []" by simp_all
  have ad: "all_digits ?d"
    by (simp only: all_digits_def at_end_def tw) (simp add: d(1))
  have "validate_each [?d] = Inr [''Module '' @ ?d]"
    by (simp only: validate_each.simps Let_def s ad d(1) label_match_str_nat [OF n]
        if_True if_False not_True_eq_False sum.case)
  then show ?thesis
    by (simp add: validate_modules_def)
qed

text \<open>
  C4 (as amended).  At request validation a label is accepted when it is the word
  \<open>module\<close> in any letter case, followed by white space and the number, or the bare
  number, for a number from 1 to 10; all these spellings of one number give the
  same label \<open>Module N\<close>.  A spelling with another separator is not accepted:
  \<open>MODULE-3\<close> raises the validation error that names it.
\<close>

theorem module_label_normalisation:
  assumes "lower w = ''module''" and "ws \<noteq> []" and "\<forall>c \<in> set ws. is_space c"
    and "1 \<le> n" and "n \<le> 10"
  shows "validate_modules [w @ ws @ str_nat n] = Inr [''Module '' @ str_nat n]
     \<and> validate_modules [str_nat n] = Inr [''Module '' @ str_nat n]
     \<and> validate_modules [''MODULE-3'']
         = Inl (ValueError ''Invalid module: MODULE-3. Must be Module 1 through Module 10'')"
proof -
  have "validate_modules [''MODULE-3'']
         = Inl (ValueError ''Invalid module: MODULE-3. Must be Module 1 through Module 10'')"
    by code_simp
  with spaced_label_normalised [OF assms] bare_label_normalised [OF assms(4,5)]
  show ?thesis by simp
qed

text \<open>Three spellings of Module 3.\<close>

theorem module_label_normalisation_witness:
  "validate_modules [''module 3''] = Inr [''Module 3'']
   \<and> validate_modules [''MODULE'' @ [CHR 0x09, CHR '' ''] @ ''3''] = Inr [''Module 3'']
   \<and> validate_modules [''3''] = Inr [''Module 3'']"
proof -
  have l: "lower ''module'' = ''module''" "lower ''MODULE'' = ''module''" by code_simp+
  have w: "\<forall>c \<in> set '' ''. is_space c" "\<forall>c \<in> set [CHR 0x09, CHR '' '']. is_space c" by code_simp+
  have n: "str_nat 3 = ''3''" by code_simp
  from module_label_normalisation [OF l(1) _ w(1), of 3]
    module_label_normalisation [OF l(2) _ w(2), of 3]
  show ?thesis by (simp add: n)
qed

text \<open>
  C4 as stated fails: \<open>MODULE-3\<close> is rejected by the validator, and so is the request
  that carries it, while \<open>module 3\<close> is accepted.
\<close>

theorem label_equivalence_counterexample:
  "validate_modules [''MODULE-3'']
     = Inl (ValueError ''Invalid module: MODULE-3. Must be Module 1 through Module 10'')
   \<and> new_request ''Module 3\<newline>Trees and graphs'' CAT1 [''MODULE-3'']
     = Inl [(''modules'', ValidatorError ''Invalid module: MODULE-3. Must be Module 1 through Module 10'')]
   \<and> validate_modules [''module 3''] = Inr [''Module 3'']"
  by code_simp

subsection \<open>The defaulting of the parsed response\<close>

lemma map_of_setdefault:
  "map_of (setdefault k v d) k' = (if k' = k then Some (dict_get d k v) else map_of d k')"
  by (auto simp: setdefault_def dict_get_def map_add_def split: option.splits)


lemma dict_get_setdefault_same: "dict_get (setdefault k v d) k x = dict_get d k v"
  by (simp add: dict_get_def map_of_setdefault)

lemma dict_get_dict_set_other: "k' \<noteq> k \<Longrightarrow> dict_get (dict_set k v d) k' x = dict_get d k' x"
  by (simp add: dict_get_def map_of_dict_set)












subsection \<open>Typed construction after the defaulting\<close>

lemma no_missing_simps [simp]:
  "no_missing []" "no_missing (es @ fs) \<longleftrightarrow> no_missing es \<and> no_missing fs"
  by (simp_all add: no_missing_def)

lemma errors_of_simps [simp]: "errors_of (Inr x) = []" "errors_of (Inl es) = es"
  by (simp_all add: errors_of_def)































subsection \<open>The orchestrator\<close>

text \<open>
  C3.  \<open>generate_question_paper\<close> returns a response for every request, library and
  pair of clock readings.  When a stage of the pipeline raises \<open>e\<close>, the response has
  \<open>success = False\<close>, the message "Generation failed: " followed by \<open>str(e)\<close> and no
  question paper; a failure of the completion client is such an exception, and the
  exceptions of the repair and of the validator come from
  \<open>parse_and_validate_response\<close>.  When no stage raises, the response has
  \<open>success = True\<close> and the paper.  A paper is present exactly when \<open>success\<close>
  holds, and on both paths \<open>processing_time\<close> is the difference of the two clock
  readings.
\<close>

theorem generate_question_paper_uniform:
  "(generation_pipeline L request = Inl e \<longrightarrow>
      generate_question_paper L start_time end_time request
        = \<lparr>success = False, message = ''Generation failed: '' @ exn_str e,
           question_paper = None, processing_time = end_time - start_time,
           agent_used = ''none''\<rparr>)
   \<and> (generation_pipeline L request = Inr p \<longrightarrow>
      generate_question_paper L start_time end_time request
        = \<lparr>success = True, message = ''Question paper generated successfully'',
           question_paper = Some p, processing_time = end_time - start_time,
           agent_used = ''ollama_question_generator''\<rparr>)
   \<and> (generate_completion L (create_generation_prompt L request) system_message = Inl msg \<longrightarrow>
        generation_pipeline L request = Inl (Exception (''Question generation failed: '' @ msg)))
   \<and> (generate_completion L (create_generation_prompt L request) system_message = Inr raw \<longrightarrow>
        generation_pipeline L request = parse_and_validate_response L (strip raw) request)
   \<and> (success (generate_question_paper L start_time end_time request)
        \<longleftrightarrow> question_paper (generate_question_paper L start_time end_time request) \<noteq> None)
   \<and> processing_time (generate_question_paper L start_time end_time request)
        = end_time - start_time"
  by (cases "generation_pipeline L request")
     (simp_all add: generate_question_paper_def generation_pipeline_def generate_with_ollama_def)

text \<open>The completion client fails with "connection refused", 3 time units after the start.\<close>

theorem generate_question_paper_uniform_witness:
  "\<forall>L. generate_question_paper (L\<lparr>generate_completion := \<lambda>prompt system. Inl ''connection refused''\<rparr>)
          (100 :: int) 103 example_request
        = \<lparr>success = False,
           message = ''Generation failed: Question generation failed: connection refused'',
           question_paper = None, processing_time = 3, agent_used = ''none''\<rparr>"
proof
  fix L :: lib
  let ?L = "L\<lparr>generate_completion := \<lambda>prompt system. Inl ''connection refused''\<rparr>"
  have c: "generate_completion ?L (create_generation_prompt ?L example_request) system_message
           = Inl ''connection refused''" by simp
  from generate_question_paper_uniform
         [where L = ?L and request = example_request and start_time = "100 :: int"
            and end_time = "103 :: int" and msg = "''connection refused''"
            and e = "Exception ''Question generation failed: connection refused''"] c
  show "generate_question_paper ?L (100 :: int) 103 example_request
        = \<lparr>success = False,
           message = ''Generation failed: Question generation failed: connection refused'',
           question_paper = None, processing_time = 3, agent_used = ''none''\<rparr>"
    by simp
qed

end
